theory Spec2Isabelle
  imports Main "HOL-Library.Word" "HOL-Library.Product_Lexorder"
begin

section \<open>The log broadcaster of core/services/log/broadcaster.go\<close>

text \<open>
  A shallow embedding of the broadcaster. The broadcaster struct is a record that every
  operation takes and returns; what an operation does besides changing the struct (the
  lines it logs, the persistence query it issues, the call of \<open>registrations.sendLogs\<close>)
  is returned as a list of effects, in program order. Go's \<open>int64\<close>, \<open>uint64\<close> and
  \<open>uint\<close> (on a 64-bit platform) are \<open>64 word\<close>: conversions between them keep the bits,
  \<open>sint\<close> reads the signed value and \<open>uint\<close> the unsigned one, and the arithmetic wraps.
\<close>

subsection \<open>Data\<close>

type_synonym int64 = "64 word"
type_synonym uint64 = "64 word"
type_synonym uint32 = "32 word"
type_synonym address = "160 word"
type_synonym hash = "256 word"

text \<open>\<open>types.Log\<close> of go-ethereum.\<close>

record RawLog =
  Address :: address
  Topics :: "hash list"
  Data :: "8 word list"
  BlockNumber :: uint64
  TxHash :: hash
  TxIndex :: uint64
  BlockHash :: hash
  Index :: uint64
  Removed :: bool

text \<open>\<open>models.Head\<close>, with the fields the broadcaster reads.\<close>

record Head =
  Number :: int64
  Hash :: hash
  ParentHash :: hash

text \<open>\<open>null.Int64\<close>: a value and the flag that says whether it is set.\<close>

record null_Int64 =
  Int64 :: int64
  Valid :: bool

record Config =
  BlockBackfillDepth :: uint64
  BlockBackfillSkip :: bool
  EthFinalityDepth :: uint64
  EthLogBackfillBatchSize :: uint32

text \<open>
  \<open>ListenerOpts\<close>. The Go map \<open>LogsWithTopics\<close> is an association list with distinct
  keys, so that \<open>len\<close> is \<open>length\<close>; the parser \<open>ParseLog\<close> plays no part in the
  broadcaster and is left out. A listener is represented by its identity, the job id.
\<close>

type_synonym Topic = hash
type_synonym Listener = string

record ListenerOpts =
  Contract :: address
  LogsWithTopics :: "(hash \<times> Topic list list) list"
  NumConfirmations :: uint64

record registration =
  listener :: Listener
  opts :: ListenerOpts

text \<open>A row of the consumption table, as \<open>FindConsumedLogs\<close> returns it.\<close>

record LogBroadcast =
  lbBlockHash :: hash
  lbLogIndex :: uint64
  lbJobID :: string

text \<open>
  The persistence layer is outside the broadcaster: \<open>orm.FindConsumedLogs\<close> is a
  parameter, a function of the two block numbers that returns the error or the rows.
\<close>

type_synonym ORM = "int64 \<Rightarrow> int64 \<Rightarrow> string + LogBroadcast list"

text \<open>
  What a mailbox carries. The Go mailbox holds \<open>interface{}\<close> values; the event loop
  checks the dynamic type of what it retrieves.
\<close>

datatype item = HeadItem Head | RegistrationItem registration | OtherItem string

datatype effect =
    LogTrace string
  | LogDebug string
  | LogInfo string
  | LogWarn string
  | LogError string
  | FindConsumedLogs int64 int64
  | SendLogs "RawLog list" Head "LogBroadcast list"
  | CreateSubscription "address list" "hash list"
  | BackfillLogs null_Int64 "address list" "hash list"

subsection \<open>Mailbox\<close>

text \<open>
  Modelled from the spec: \<open>utils.Mailbox\<close> is not among the sources. Section 4.1: a
  buffer with drop-oldest on overflow; \<open>Deliver(item)\<close> returns whether the mailbox was
  over capacity; \<open>Retrieve()\<close> returns \<open>(item, present)\<close>; \<open>RetrieveLatestAndClear()\<close>
  returns the item or nil. With capacity 1 \<open>Deliver\<close> replaces any pending item; with
  capacity 0 nothing is dropped. The queue is kept oldest first and \<open>Retrieve\<close> hands
  items out in arrival order (section 5).
\<close>

record Mailbox =
  queue :: "item list"
  capacity :: nat

definition NewMailbox :: "nat \<Rightarrow> Mailbox" where
  "NewMailbox c = \<lparr>queue = [], capacity = c\<rparr>"

definition Deliver :: "item \<Rightarrow> Mailbox \<Rightarrow> bool \<times> Mailbox" where
  "Deliver x m =
     (let q = queue m @ [x] in
      if 0 < capacity m \<and> capacity m < length q
      then (True, m\<lparr>queue := tl q\<rparr>)
      else (False, m\<lparr>queue := q\<rparr>))"

definition Retrieve :: "Mailbox \<Rightarrow> item option \<times> Mailbox" where
  "Retrieve m =
     (case queue m of
        [] \<Rightarrow> (None, m)
      | x # q \<Rightarrow> (Some x, m\<lparr>queue := q\<rparr>))"

definition RetrieveLatestAndClear :: "Mailbox \<Rightarrow> item option \<times> Mailbox" where
  "RetrieveLatestAndClear m =
     (if queue m = [] then (None, m) else (Some (last (queue m)), m\<lparr>queue := []\<rparr>))"

subsection \<open>Log pool\<close>

text \<open>
  Modelled from the spec: the log pool (\<open>logPool\<close>) is not among the sources. Sections 3
  and 4.2: a log is identified by \<open>(block_hash, log_index)\<close>; an insertion for a key that
  is present overwrites; \<open>removeLog\<close> erases the entry of that key;
  \<open>getLogsToSend(latest)\<close> returns the logs whose block number is at most \<open>latest\<close>,
  sorted by \<open>(block_number, tx_index, log_index)\<close>, and the least block number returned,
  and leaves the pool as it is; \<open>getAndDeleteAll\<close> returns all logs with the lowest and
  highest block number and empties the pool; \<open>deleteOlderLogs(n)\<close> evicts everything
  strictly below \<open>n\<close>. The spec does not say what the block numbers are when no log is
  returned: they are 0 here, and the broadcaster does not read them in that case.
\<close>

type_synonym logPool = "RawLog list"

definition logKey :: "RawLog \<Rightarrow> hash \<times> uint64" where
  "logKey l = (BlockHash l, Index l)"

definition sortKey :: "RawLog \<Rightarrow> nat \<times> nat \<times> nat" where
  "sortKey l = (unat (BlockNumber l), unat (TxIndex l), unat (Index l))"

definition newLogPool :: logPool where
  "newLogPool = []"

definition removeLog :: "RawLog \<Rightarrow> logPool \<Rightarrow> logPool" where
  "removeLog l pool = filter (\<lambda>x. logKey x \<noteq> logKey l) pool"

definition addLog :: "RawLog \<Rightarrow> logPool \<Rightarrow> logPool" where
  "addLog l pool = l # filter (\<lambda>x. logKey x \<noteq> logKey l) pool"

definition blockNumbers :: "RawLog list \<Rightarrow> nat list" where
  "blockNumbers ls = map (\<lambda>l. unat (BlockNumber l)) ls"

definition lowestBlock :: "RawLog list \<Rightarrow> int64" where
  "lowestBlock ls = (if ls = [] then 0 else of_nat (fold min (blockNumbers ls) (hd (blockNumbers ls))))"

definition highestBlock :: "RawLog list \<Rightarrow> int64" where
  "highestBlock ls = (if ls = [] then 0 else of_nat (fold max (blockNumbers ls) (hd (blockNumbers ls))))"

definition getLogsToSend :: "int64 \<Rightarrow> logPool \<Rightarrow> RawLog list \<times> int64" where
  "getLogsToSend latestBlockNum pool =
     (let ls = sort_key sortKey (filter (\<lambda>l. uint (BlockNumber l) \<le> sint latestBlockNum) pool)
      in (ls, lowestBlock ls))"

definition getAndDeleteAll :: "logPool \<Rightarrow> (RawLog list \<times> int64 \<times> int64) \<times> logPool" where
  "getAndDeleteAll pool =
     (let ls = sort_key sortKey pool in ((ls, lowestBlock ls, highestBlock ls), []))"

definition deleteOlderLogs :: "uint64 \<Rightarrow> logPool \<Rightarrow> logPool" where
  "deleteOlderLogs keptDepth pool = filter (\<lambda>l. \<not> BlockNumber l < keptDepth) pool"

subsection \<open>Registrations\<close>

text \<open>
  Modelled from the spec: \<open>registrations\<close> is not among the sources; the broadcaster
  reads its field \<open>highestNumConfirmations\<close> and calls the operations below. Sections 3
  and 4.3: \<open>highest_num_confirmations\<close> is the greatest \<open>num_confirmations\<close> of the active
  listeners, 0 if there is none; \<open>addresses_and_topics\<close> is the union of the contract
  addresses and of the topic hashes of all listeners; \<open>addSubscriber\<close> asks for a
  resubscription if the registration brings an address or a topic that is not covered
  yet, or more confirmations than the highest so far; \<open>removeSubscriber\<close> asks for one if
  the removal drops the only listener of an address and topic. What \<open>sendLogs\<close> does
  with the listeners is outside this theory: the call is recorded as the effect
  \<open>SendLogs\<close>.
\<close>

record registrations =
  subscribers :: "registration list"
  highestNumConfirmations :: uint64

definition newRegistrations :: registrations where
  "newRegistrations = \<lparr>subscribers = [], highestNumConfirmations = 0\<rparr>"

definition isAddressRegistered :: "registrations \<Rightarrow> address \<Rightarrow> bool" where
  "isAddressRegistered r a = (a \<in> set (map (\<lambda>s. Contract (opts s)) (subscribers r)))"

definition regTopics :: "registration \<Rightarrow> (address \<times> hash) list" where
  "regTopics s = map (\<lambda>(t, fs). (Contract (opts s), t)) (LogsWithTopics (opts s))"

definition addressesAndTopics :: "registrations \<Rightarrow> address list \<times> hash list" where
  "addressesAndTopics r =
     (remdups (map (\<lambda>s. Contract (opts s)) (subscribers r)),
      remdups (concat (map (\<lambda>s. map fst (LogsWithTopics (opts s))) (subscribers r))))"

definition highestOf :: "registration list \<Rightarrow> uint64" where
  "highestOf ss = fold max (map (\<lambda>s. NumConfirmations (opts s)) ss) 0"

definition addSubscriber :: "registration \<Rightarrow> registrations \<Rightarrow> bool \<times> registrations" where
  "addSubscriber reg r =
     (let (addrs, topics) = addressesAndTopics r;
          needsResubscribe =
            (Contract (opts reg) \<notin> set addrs
             \<or> \<not> set (map fst (LogsWithTopics (opts reg))) \<subseteq> set topics
             \<or> highestNumConfirmations r < NumConfirmations (opts reg));
          ss = subscribers r @ [reg]
      in (needsResubscribe, \<lparr>subscribers = ss, highestNumConfirmations = highestOf ss\<rparr>))"

definition removeSubscriber :: "registration \<Rightarrow> registrations \<Rightarrow> bool \<times> registrations" where
  "removeSubscriber reg r =
     (let ss = remove1 reg (subscribers r);
          needsResubscribe =
            (reg \<in> set (subscribers r)
             \<and> \<not> set (regTopics reg) \<subseteq> set (concat (map regTopics ss)))
      in (needsResubscribe, \<lparr>subscribers = ss, highestNumConfirmations = highestOf ss\<rparr>))"

subsection \<open>The broadcaster\<close>

text \<open>
  The struct \<open>broadcaster\<close>. The replay channel is a buffered Go channel of capacity 1:
  the list of the values it holds, oldest first. The Ethereum subscriber, the stop channel,
  the wait group and the start/stop guard have no part in the operations below.
\<close>

record broadcaster =
  config :: Config
  connected :: bool
  backfillBlockNumber :: null_Int64
  registrations :: registrations
  logPool :: logPool
  addSubscriberMb :: Mailbox
  rmSubscriberMb :: Mailbox
  newHeads :: Mailbox
  trackedAddressesCount :: uint32
  replayChannel :: "int64 list"
  highestSavedHead :: "Head option"
  lastSeenHeadNumber :: int64

definition replayChannelCap :: nat where
  "replayChannelCap = 1"

definition NewBroadcaster :: "Config \<Rightarrow> Head option \<Rightarrow> broadcaster" where
  "NewBroadcaster cfg saved =
     \<lparr>config = cfg,
      connected = False,
      backfillBlockNumber = \<lparr>Int64 = 0, Valid = False\<rparr>,
      registrations = newRegistrations,
      logPool = newLogPool,
      addSubscriberMb = NewMailbox 0,
      rmSubscriberMb = NewMailbox 0,
      newHeads = NewMailbox 1,
      trackedAddressesCount = 0,
      replayChannel = [],
      highestSavedHead = saved,
      lastSeenHeadNumber = 0\<rparr>"

subsection \<open>The public operations\<close>

text \<open>
  \<open>ReplayFromBlock\<close>: a \<open>select\<close> with a \<open>default\<close> branch. The send is taken when the
  channel has room; otherwise the \<open>default\<close> branch runs, which does nothing.
\<close>

definition ReplayFromBlock :: "int64 \<Rightarrow> broadcaster \<Rightarrow> broadcaster \<times> effect list" where
  "ReplayFromBlock number b =
     (if length (replayChannel b) < replayChannelCap
      then b\<lparr>replayChannel := replayChannel b @ [number]\<rparr>
      else b,
      [LogInfo ''LogBroadcaster: Replay requested from block number''])"

text \<open>
  \<open>Register\<close>. \<open>logger.Fatal\<close> writes the line and ends the process: the error value
  \<open>Fatal\<close>, after which there is no broadcaster to return. Otherwise the registration
  is delivered to the subscription mailbox; the closure that \<open>Register\<close> returns captures
  the registration, and calling it is \<open>unsubscribe\<close>.
\<close>

datatype fatal = Fatal string

definition Register ::
  "Listener \<Rightarrow> ListenerOpts \<Rightarrow> broadcaster \<Rightarrow> fatal + (registration \<times> broadcaster \<times> effect list)" where
  "Register l os b =
     (if length (LogsWithTopics os) = 0
      then Inl (Fatal ''LogBroadcaster: Must supply at least 1 LogsWithTopics element to Register'')
      else
        (let reg = \<lparr>listener = l, opts = os\<rparr>;
             (wasOverCapacity, m) = Deliver (RegistrationItem reg) (addSubscriberMb b)
         in Inr (reg, b\<lparr>addSubscriberMb := m\<rparr>,
              if wasOverCapacity
              then [LogError ''LogBroadcaster: Subscription mailbox is over capacity - dropped the oldest unprocessed subscription'']
              else [])))"

definition unsubscribe :: "registration \<Rightarrow> broadcaster \<Rightarrow> broadcaster \<times> effect list" where
  "unsubscribe reg b =
     (let (wasOverCapacity, m) = Deliver (RegistrationItem reg) (rmSubscriberMb b)
      in (b\<lparr>rmSubscriberMb := m\<rparr>,
          if wasOverCapacity
          then [LogError ''LogBroadcaster: Subscription removal mailbox is over capacity - dropped the oldest unprocessed removal'']
          else []))"

text \<open>\<open>Connect\<close> returns the error, which is nil (\<open>None\<close>), and the broadcaster.\<close>

definition Connect :: "Head option \<Rightarrow> broadcaster \<Rightarrow> string option \<times> broadcaster" where
  "Connect head b = (None, b)"

definition OnNewLongestChain :: "Head \<Rightarrow> broadcaster \<Rightarrow> broadcaster \<times> effect list" where
  "OnNewLongestChain head b =
     (let (wasOverCapacity, m) = Deliver (HeadItem head) (newHeads b)
      in (b\<lparr>newHeads := m\<rparr>,
          if wasOverCapacity
          then [LogTrace ''LogBroadcaster: Dropped the older head in the mailbox, while inserting latest (which is fine)'']
          else []))"

definition IsConnected :: "broadcaster \<Rightarrow> bool" where
  "IsConnected b = connected b"

subsection \<open>Handlers of the event loop\<close>

definition maybeWarnOnLargeBlockNumberDifference :: "int64 \<Rightarrow> broadcaster \<Rightarrow> effect list" where
  "maybeWarnOnLargeBlockNumberDifference logBlockNumber b =
     (let diff0 = logBlockNumber - lastSeenHeadNumber b;
          diff = (if sint diff0 < 0 then - diff0 else diff0)
      in if 0 < sint (lastSeenHeadNumber b) \<and> 1000 < sint diff
         then [LogWarn ''LogBroadcaster: Detected a large block number difference between a log and recently seen head.'']
         else [])"

definition onNewLog :: "RawLog \<Rightarrow> broadcaster \<Rightarrow> broadcaster \<times> effect list" where
  "onNewLog log b =
     (let es = maybeWarnOnLargeBlockNumberDifference (BlockNumber log) b
      in if Removed log then (b\<lparr>logPool := removeLog log (logPool b)\<rparr>, es)
         else if \<not> isAddressRegistered (registrations b) (Address log) then (b, es)
         else (b\<lparr>logPool := addLog log (logPool b)\<rparr>, es))"

text \<open>
  The first loop of \<open>onNewHeads\<close>: retrieve the latest item and clear the mailbox until
  it is empty, keeping the last item that is a head.
\<close>

function drainNewHeads :: "Mailbox \<Rightarrow> Head option \<Rightarrow> Mailbox \<times> Head option \<times> effect list" where
  "drainNewHeads m latestHead =
     (case RetrieveLatestAndClear m of
        (None, m') \<Rightarrow> (m', latestHead, [])
      | (Some x, m') \<Rightarrow>
          (case x of
             HeadItem head \<Rightarrow> drainNewHeads m' (Some head)
           | _ \<Rightarrow>
              (let (m'', h, es) = drainNewHeads m' latestHead
               in (m'', h, LogError ''expected models.Head, got another type'' # es))))"
  by pat_completeness auto
termination
  by (relation "measure (\<lambda>(m, h). length (queue m))")
     (auto simp: RetrieveLatestAndClear_def split: if_splits)

declare drainNewHeads.simps [simp del]

text \<open>
  The rest of \<open>onNewHeads\<close>, run when a head was found: one dispatch pass for that head.
\<close>

definition dispatch :: "ORM \<Rightarrow> Head \<Rightarrow> broadcaster \<Rightarrow> broadcaster \<times> effect list" where
  "dispatch orm latestHead b0 =
     (let b = b0\<lparr>lastSeenHeadNumber := Number latestHead\<rparr>;
          received = LogDebug ''LogBroadcaster: Received head'';
          hnc = highestNumConfirmations (registrations b);
          keptLogsDepth = (if EthFinalityDepth (config b) < hnc then hnc else EthFinalityDepth (config b));
          latestBlockNum = Number latestHead;
          keptDepth0 = latestBlockNum - keptLogsDepth;
          keptDepth = (if sint keptDepth0 < 0 then 0 else keptDepth0)
      in if hnc = 0 then
           (let ((logs, lowest, highest), pool) = getAndDeleteAll (logPool b);
                b1 = b\<lparr>logPool := pool\<rparr>
            in if 0 < length logs then
                 (case orm lowest highest of
                    Inl err \<Rightarrow>
                      (b1, [received, FindConsumedLogs lowest highest,
                            LogError ''Failed to query for log broadcasts''])
                  | Inr broadcasts \<Rightarrow>
                      (b1, [received, FindConsumedLogs lowest highest,
                            SendLogs logs latestHead broadcasts]))
               else (b1, [received]))
         else
           (let (logs, minBlockNum) = getLogsToSend latestBlockNum (logPool b)
            in if 0 < length logs then
                 (case orm minBlockNum latestBlockNum of
                    Inl err \<Rightarrow>
                      (b, [received, FindConsumedLogs minBlockNum latestBlockNum,
                           LogError ''LogBroadcaster: Failed to query for log broadcasts''])
                  | Inr broadcasts \<Rightarrow>
                      (b\<lparr>logPool := deleteOlderLogs keptDepth (logPool b)\<rparr>,
                       [received, FindConsumedLogs minBlockNum latestBlockNum,
                        SendLogs logs latestHead broadcasts]))
               else (b\<lparr>logPool := deleteOlderLogs keptDepth (logPool b)\<rparr>, [received])))"

text \<open>
  The depth of logs kept and the block number below which \<open>onNewHeads\<close> evicts, as the
  dispatch pass computes them: \<open>keptLogsDepth\<close> is the greater of \<open>EthFinalityDepth\<close> and
  \<open>highestNumConfirmations\<close>, and \<open>keptDepth\<close> is \<open>latestBlockNum - int64(keptLogsDepth)\<close>,
  replaced by 0 when negative.
\<close>

definition keptDepthOf :: "broadcaster \<Rightarrow> uint64" where
  "keptDepthOf b = max (EthFinalityDepth (config b)) (highestNumConfirmations (registrations b))"

definition evictBelow :: "Head \<Rightarrow> broadcaster \<Rightarrow> uint64" where
  "evictBelow h b = (let d = Number h - keptDepthOf b in if sint d < 0 then 0 else d)"

text \<open>Reading a list of effects: the persistence queries, the calls of \<open>sendLogs\<close>.\<close>

fun isQuery :: "effect \<Rightarrow> bool" where
  "isQuery (FindConsumedLogs lo hi) = True"
| "isQuery e = False"

fun isSendLogs :: "effect \<Rightarrow> bool" where
  "isSendLogs (SendLogs logs head broadcasts) = True"
| "isSendLogs e = False"

fun sentLogs :: "effect \<Rightarrow> RawLog list" where
  "sentLogs (SendLogs logs head broadcasts) = logs"
| "sentLogs e = []"

fun isReceivedHead :: "effect \<Rightarrow> bool" where
  "isReceivedHead (LogDebug msg) = (msg = ''LogBroadcaster: Received head'')"
| "isReceivedHead e = False"

text \<open>
  Several heads delivered one after the other by \<open>OnNewLongestChain\<close>, before the event
  loop looks at the mailbox.
\<close>

definition deliverHeads :: "Head list \<Rightarrow> broadcaster \<Rightarrow> broadcaster" where
  "deliverHeads hs b = fold (\<lambda>h b. fst (OnNewLongestChain h b)) hs b"

definition onNewHeads :: "ORM \<Rightarrow> broadcaster \<Rightarrow> broadcaster \<times> effect list" where
  "onNewHeads orm b =
     (let (m, latestHead, es) = drainNewHeads (newHeads b) None;
          b1 = b\<lparr>newHeads := m\<rparr>
      in case latestHead of
           None \<Rightarrow> (b1, es)
         | Some head \<Rightarrow> (let (b2, es2) = dispatch orm head b1 in (b2, es @ es2)))"

function onAddSubscribers :: "broadcaster \<Rightarrow> bool \<times> broadcaster \<times> effect list" where
  "onAddSubscribers b =
     (case Retrieve (addSubscriberMb b) of
        (None, m) \<Rightarrow> (False, b, [])
      | (Some x, m) \<Rightarrow>
          (case x of
             RegistrationItem reg \<Rightarrow>
               (let (needsResub, r) = addSubscriber reg (registrations b);
                    (needsResubscribe, b', es) =
                       onAddSubscribers (b\<lparr>addSubscriberMb := m, registrations := r\<rparr>)
                in (needsResub \<or> needsResubscribe, b',
                    LogDebug ''LogBroadcaster: Subscribing listener'' # es))
           | _ \<Rightarrow>
               (let (needsResubscribe, b', es) = onAddSubscribers (b\<lparr>addSubscriberMb := m\<rparr>)
                in (needsResubscribe, b',
                    LogError ''expected registration, got another type'' # es))))"
  by pat_completeness auto
termination
  by (relation "measure (\<lambda>b. length (queue (addSubscriberMb b)))")
     (auto simp: Retrieve_def split: list.splits)

declare onAddSubscribers.simps [simp del]

function onRmSubscribers :: "broadcaster \<Rightarrow> bool \<times> broadcaster \<times> effect list" where
  "onRmSubscribers b =
     (case Retrieve (rmSubscriberMb b) of
        (None, m) \<Rightarrow> (False, b, [])
      | (Some x, m) \<Rightarrow>
          (case x of
             RegistrationItem reg \<Rightarrow>
               (let (needsResub, r) = removeSubscriber reg (registrations b);
                    (needsResubscribe, b', es) =
                       onRmSubscribers (b\<lparr>rmSubscriberMb := m, registrations := r\<rparr>)
                in (needsResub \<or> needsResubscribe, b',
                    LogDebug ''LogBroadcaster: Unsubscribing listener'' # es))
           | _ \<Rightarrow>
               (let (needsResubscribe, b', es) = onRmSubscribers (b\<lparr>rmSubscriberMb := m\<rparr>)
                in (needsResubscribe, b',
                    LogError ''expected registration, got another type'' # es))))"
  by pat_completeness auto
termination
  by (relation "measure (\<lambda>b. length (queue (rmSubscriberMb b)))")
     (auto simp: Retrieve_def split: list.splits)

declare onRmSubscribers.simps [simp del]

text \<open>
  Reading a mailbox item and an effect: whether the item is a registration, and whether
  the effect is the error line that the handlers log for an item of another type.
\<close>

fun isRegistrationItem :: "item \<Rightarrow> bool" where
  "isRegistrationItem (RegistrationItem reg) = True"
| "isRegistrationItem x = False"

fun isTypeMismatch :: "effect \<Rightarrow> bool" where
  "isTypeMismatch (LogError msg) =
     (msg = ''expected registration, got another type''
      \<or> msg = ''expected models.Head, got another type'')"
| "isTypeMismatch e = False"

text \<open>
  The loops of \<open>onAddSubscribers\<close> and \<open>onRmSubscribers\<close> written as one recursion over
  the items of the queue, with the operation on the registrations and the debug line as
  parameters; \<open>onAddSubscribers_handleAll\<close> and \<open>onRmSubscribers_handleAll\<close> below show
  that the handlers compute exactly this.
\<close>

fun handleAll ::
  "(registration \<Rightarrow> registrations \<Rightarrow> bool \<times> registrations) \<Rightarrow> string \<Rightarrow> item list
     \<Rightarrow> registrations \<Rightarrow> bool \<times> registrations \<times> effect list" where
  "handleAll f msg [] r = (False, r, [])"
| "handleAll f msg (RegistrationItem reg # xs) r =
     (let (needsResub, r1) = f reg r;
          (needsResubscribe, r2, es) = handleAll f msg xs r1
      in (needsResub \<or> needsResubscribe, r2, LogDebug msg # es))"
| "handleAll f msg (x # xs) r =
     (let (needsResubscribe, r2, es) = handleAll f msg xs r
      in (needsResubscribe, r2, LogError ''expected registration, got another type'' # es))"

text \<open>
  The registrations among the items of a mailbox, in the order of the queue, and the loop
  of the two handlers on the registrations alone: the operation is applied to each
  registration in turn, and the result asks for a resubscription as soon as one call does.
\<close>

fun registrationsOf :: "item list \<Rightarrow> registration list" where
  "registrationsOf [] = []"
| "registrationsOf (RegistrationItem reg # xs) = reg # registrationsOf xs"
| "registrationsOf (x # xs) = registrationsOf xs"

fun applyAll ::
  "(registration \<Rightarrow> registrations \<Rightarrow> bool \<times> registrations) \<Rightarrow> registration list
     \<Rightarrow> registrations \<Rightarrow> bool \<times> registrations" where
  "applyAll f [] r = (False, r)"
| "applyAll f (reg # regs) r =
     (let (needsResub, r1) = f reg r;
          (needsResubscribe, r2) = applyAll f regs r1
      in (needsResub \<or> needsResubscribe, r2))"

subsection \<open>The event loop\<close>

text \<open>
  \<open>eventLoop\<close> is a \<open>for\<close> around a \<open>select\<close>. Which branch of the \<open>select\<close> fires is
  decided outside the broadcaster, so the loop runs over a schedule: the list of the
  branches that fire, in order. \<open>ReplayCase\<close> receives from the replay channel and is
  ready only when the channel holds a value; in a schedule that names it on an empty
  channel the entry is passed over. The loop returns \<open>Some (shouldResubscribe, err)\<close>
  when a branch returns, and \<open>None\<close> when the schedule ends with the loop still waiting.
\<close>

datatype select_case =
    RawLogCase RawLog
  | NewHeadsCase
  | ErrCase string
  | AddSubscriberCase
  | RmSubscriberCase
  | ReplayCase
  | DebounceCase
  | StopCase

fun eventLoopRun ::
  "ORM \<Rightarrow> select_case list \<Rightarrow> bool \<Rightarrow> broadcaster
    \<Rightarrow> (bool \<times> string option) option \<times> broadcaster \<times> effect list" where
  "eventLoopRun orm [] needsResubscribe b = (None, b, [])"
| "eventLoopRun orm (RawLogCase rawLog # cs) needsResubscribe b =
     (let (b1, es1) = onNewLog rawLog b;
          (r, b2, es2) = eventLoopRun orm cs needsResubscribe b1
      in (r, b2, LogDebug ''LogBroadcaster: Received a log'' # es1 @ es2))"
| "eventLoopRun orm (NewHeadsCase # cs) needsResubscribe b =
     (let (b1, es1) = onNewHeads orm b;
          (r, b2, es2) = eventLoopRun orm cs needsResubscribe b1
      in (r, b2, es1 @ es2))"
| "eventLoopRun orm (ErrCase err # cs) needsResubscribe b = (Some (True, Some err), b, [])"
| "eventLoopRun orm (AddSubscriberCase # cs) needsResubscribe b =
     (let (n, b1, es1) = onAddSubscribers b;
          (r, b2, es2) = eventLoopRun orm cs (n \<or> needsResubscribe) b1
      in (r, b2, es1 @ es2))"
| "eventLoopRun orm (RmSubscriberCase # cs) needsResubscribe b =
     (let (n, b1, es1) = onRmSubscribers b;
          (r, b2, es2) = eventLoopRun orm cs (n \<or> needsResubscribe) b1
      in (r, b2, es1 @ es2))"
| "eventLoopRun orm (ReplayCase # cs) needsResubscribe b =
     (case replayChannel b of
        [] \<Rightarrow> eventLoopRun orm cs needsResubscribe b
      | blockNumber # rest \<Rightarrow>
          (Some (True, None),
           b\<lparr>replayChannel := rest,
             backfillBlockNumber := \<lparr>Int64 = blockNumber, Valid = True\<rparr>\<rparr>,
           [LogDebug ''LogBroadcaster: Returning from the event loop to replay logs from specific block number'']))"
| "eventLoopRun orm (DebounceCase # cs) needsResubscribe b =
     (if needsResubscribe
      then (Some (True, None), b,
            [LogDebug ''LogBroadcaster: Returning from the event loop to resubscribe''])
      else eventLoopRun orm cs needsResubscribe b)"
| "eventLoopRun orm (StopCase # cs) needsResubscribe b = (Some (False, None), b, [])"

definition eventLoop ::
  "ORM \<Rightarrow> select_case list \<Rightarrow> broadcaster
    \<Rightarrow> (bool \<times> string option) option \<times> broadcaster \<times> effect list" where
  "eventLoop orm cs b =
     (let (r, b', es) = eventLoopRun orm cs False b
      in (r, b', LogDebug ''LogBroadcaster: Starting the event loop'' # es))"

subsection \<open>Resubscribing\<close>

text \<open>
  One pass of the loop of \<open>startResubscribeLoop\<close>, from its first line to the call of
  \<open>eventLoop\<close>. The Ethereum subscriber is outside the broadcaster: its two calls are
  recorded as effects with their arguments, and whether each of them reports \<open>abort\<close> is a
  parameter. \<open>backfillStart\<close> is the part between the two calls, which chooses the block
  the backfill starts from. The pass returns whether it was aborted.
\<close>

definition backfillStart :: "broadcaster \<Rightarrow> broadcaster \<times> effect list" where
  "backfillStart b0 =
     (let (b1, es1) =
            (if BlockBackfillSkip (config b0) \<and> highestSavedHead b0 \<noteq> None
             then (b0\<lparr>highestSavedHead := None\<rparr>,
                   [LogWarn ''LogBroadcaster: BlockBackfillSkip is set to true, preventing a deep backfill - some earlier chain events might be missed.''])
             else (b0, []));
          b2 =
            (case highestSavedHead b1 of
               None \<Rightarrow> b1
             | Some head \<Rightarrow>
                 (let from0 = Number head
                        - highestNumConfirmations (registrations b1)
                        - BlockBackfillDepth (config b1);
                      from = (if sint from0 < 0 then 0 else from0)
                  in b1\<lparr>backfillBlockNumber := \<lparr>Int64 = from, Valid = True\<rparr>,
                        highestSavedHead := None\<rparr>));
          es2 =
            (if Valid (backfillBlockNumber b2)
             then [LogDebug ''LogBroadcaster: Using an override as a start of the backfill'']
             else [])
      in (b2, es1 @ es2))"

definition resubscribePass :: "bool \<Rightarrow> bool \<Rightarrow> broadcaster \<Rightarrow> bool \<times> broadcaster \<times> effect list" where
  "resubscribePass createAbort backfillAbort b =
     (let (addresses, topics) = addressesAndTopics (registrations b);
          es0 = [LogDebug ''LogBroadcaster: Resubscribing and backfilling logs...'',
                 CreateSubscription addresses topics]
      in if createAbort then (True, b, es0)
         else
           (let (b1, es1) = backfillStart b;
                es2 = [BackfillLogs (backfillBlockNumber b1) addresses topics]
            in if backfillAbort then (True, b1, es0 @ es1 @ es2)
               else
                 (False,
                  b1\<lparr>backfillBlockNumber := (backfillBlockNumber b1)\<lparr>Valid := False\<rparr>,
                     connected := True,
                     trackedAddressesCount := of_nat (length addresses)\<rparr>,
                  es0 @ es1 @ es2)))"

text \<open>
  The loop of \<open>startResubscribeLoop\<close>: a pass, then the event loop, and what follows its
  return. An error of the event loop is logged, the broadcaster is marked as disconnected
  and the loop goes on to the next pass; without an error the loop goes on to the next pass
  if the event loop asks for a resubscription, and otherwise marks the broadcaster as
  disconnected and returns. What the Ethereum subscriber answers and which branches fire
  in the event loop are given for each pass in turn: whether \<open>createSubscription\<close> and
  \<open>backfillLogs\<close> abort, and the schedule of the event loop. The result tells whether the
  loop has returned; it has not when the passes given are used up or the last event loop
  is still waiting.
\<close>

fun startResubscribeLoop ::
  "ORM \<Rightarrow> (bool \<times> bool \<times> select_case list) list \<Rightarrow> broadcaster
     \<Rightarrow> bool \<times> broadcaster \<times> effect list" where
  "startResubscribeLoop orm [] b = (False, b, [])"
| "startResubscribeLoop orm ((createAbort, backfillAbort, cs) # passes) b =
     (let (abort, b1, es1) = resubscribePass createAbort backfillAbort b
      in if abort then (True, b1, es1)
         else
           (let (r, b2, es2) = eventLoop orm cs b1
            in case r of
                 None \<Rightarrow> (False, b2, es1 @ es2)
               | Some (shouldResubscribe, err) \<Rightarrow>
                   if err \<noteq> None then
                     (let (returned, b3, es3) =
                            startResubscribeLoop orm passes (b2\<lparr>connected := False\<rparr>)
                      in (returned, b3,
                          es1 @ es2
                            @ LogWarn ''LogBroadcaster: Error in the event loop - will reconnect'' # es3))
                   else if \<not> shouldResubscribe then (True, b2\<lparr>connected := False\<rparr>, es1 @ es2)
                   else
                     (let (returned, b3, es3) = startResubscribeLoop orm passes b2
                      in (returned, b3, es1 @ es2 @ es3))))"

subsection \<open>Concatenating log channels\<close>

text \<open>
  A channel of logs, as the goroutine of \<open>appendLogChannel\<close> sees it: \<open>NilChan\<close> is the
  nil channel; \<open>Chan logs closed\<close> delivers \<open>logs\<close> in order and is then closed if
  \<open>closed\<close> holds, and otherwise stays open without ever delivering again. The goroutine
  ranges over the first channel and after it over the second. For each log it receives, a
  \<open>select\<close> either sends the log on the combined channel or takes the stop signal and
  returns. Which of the two happens is decided outside the goroutine and is a parameter:
  \<open>None\<close> when no \<open>select\<close> takes the stop signal, \<open>Some k\<close> when the signal fires
  after \<open>k\<close> sends, so that the next \<open>select\<close> takes it. The signal is read nowhere
  else: if the goroutine reaches no \<open>select\<close> after the \<open>k\<close> sends, because no further
  log is received, the signal has no effect. \<open>forward\<close> is one \<open>range\<close> loop: it returns
  the logs sent, what is
  left of the stop parameter, and how the loop ended: the channel was closed
  (\<open>Drained\<close>), the stop signal was taken (\<open>Stopped\<close>), or the loop waits for ever on
  a channel that is neither closed nor delivering (\<open>Blocked\<close>). The deferred \<open>close\<close>
  closes the combined channel when the goroutine returns, so the result is the logs sent
  on the combined channel and whether it is closed in the end; it is \<open>None\<close> when
  \<open>appendLogChannel\<close> returns nil.
\<close>

datatype chan = NilChan | Chan "RawLog list" bool

datatype loop_end = Drained | Stopped | Blocked

fun forward :: "nat option \<Rightarrow> RawLog list \<Rightarrow> bool \<Rightarrow> RawLog list \<times> nat option \<times> loop_end" where
  "forward stop [] closed = ([], stop, if closed then Drained else Blocked)"
| "forward None (rawLog # rest) closed =
     (let (sent, stop', e) = forward None rest closed in (rawLog # sent, stop', e))"
| "forward (Some 0) (rawLog # rest) closed = ([], Some 0, Stopped)"
| "forward (Some (Suc k)) (rawLog # rest) closed =
     (let (sent, stop', e) = forward (Some k) rest closed in (rawLog # sent, stop', e))"

definition appendLogChannel :: "nat option \<Rightarrow> chan \<Rightarrow> chan \<Rightarrow> (RawLog list \<times> bool) option" where
  "appendLogChannel stop ch1 ch2 =
     (if ch1 = NilChan \<and> ch2 = NilChan then None
      else
        (let (sent1, stop1, end1) =
               (case ch1 of
                  NilChan \<Rightarrow> ([], stop, Drained)
                | Chan logs1 closed1 \<Rightarrow> forward stop logs1 closed1)
         in case end1 of
              Stopped \<Rightarrow> Some (sent1, True)
            | Blocked \<Rightarrow> Some (sent1, False)
            | Drained \<Rightarrow>
                (case ch2 of
                   NilChan \<Rightarrow> Some (sent1, True)
                 | Chan logs2 closed2 \<Rightarrow>
                     (let (sent2, stop2, end2) = forward stop1 logs2 closed2
                      in Some (sent1 @ sent2, end2 \<noteq> Blocked)))))"

subsection \<open>The spec's formulas and example states\<close>

text \<open>
  The backfill start as the spec words it (section 4.5, step 4, and section 8, property 5),
  over the integers: \<open>max(0, saved - confirmations - depth)\<close>.
\<close>

definition spec_backfill_from :: "int \<Rightarrow> int \<Rightarrow> int \<Rightarrow> int" where
  "spec_backfill_from saved confirmations depth = max 0 (saved - confirmations - depth)"

text \<open>
  The retention depth and the eviction threshold as the spec words them (section 4.5.2),
  over the integers: \<open>max(EthFinalityDepth, highest_num_confirmations)\<close> and
  \<open>max(H - kept_depth, 0)\<close>.
\<close>

definition spec_kept_depth :: "int \<Rightarrow> int \<Rightarrow> int" where
  "spec_kept_depth finality confirmations = max finality confirmations"

definition spec_evict_below :: "int \<Rightarrow> int \<Rightarrow> int" where
  "spec_evict_below H kept = max (H - kept) 0"

text \<open>
  The states of scenario S4 of the spec: a restart with the saved head 15, a backfill depth
  of 5 and one listener that asks for 3 confirmations; and the same with
  \<open>BlockBackfillSkip\<close> set.
\<close>

definition exampleConfig :: Config where
  "exampleConfig =
     \<lparr>BlockBackfillDepth = 5, BlockBackfillSkip = False,
      EthFinalityDepth = 50, EthLogBackfillBatchSize = 100\<rparr>"

definition exampleHead :: Head where
  "exampleHead = \<lparr>Number = 15, Hash = 1015, ParentHash = 1014\<rparr>"

definition exampleOpts :: ListenerOpts where
  "exampleOpts = \<lparr>Contract = 12, LogsWithTopics = [(77, [])], NumConfirmations = 3\<rparr>"

definition exampleRegistration :: registration where
  "exampleRegistration = \<lparr>listener = ''J'', opts = exampleOpts\<rparr>"

definition exampleRegistrations :: registrations where
  "exampleRegistrations = \<lparr>subscribers = [exampleRegistration], highestNumConfirmations = 3\<rparr>"

definition exampleRestart :: broadcaster where
  "exampleRestart =
     (NewBroadcaster exampleConfig (Some exampleHead))\<lparr>registrations := exampleRegistrations\<rparr>"

definition exampleRestartSkip :: broadcaster where
  "exampleRestartSkip = exampleRestart\<lparr>config := exampleConfig\<lparr>BlockBackfillSkip := True\<rparr>\<rparr>"

text \<open>
  Scenario S1 of the spec: the log \<open>L\<close> of block 10 is in the pool and head 12 arrives.
  \<open>exampleZeroConf\<close> is the same pool when the only listener asks for 0 confirmations,
  and \<open>exampleZeroConfHeads\<close> is that state after head 12 was delivered to the mailbox.
\<close>

definition exampleLog :: RawLog where
  "exampleLog =
     \<lparr>Address = 12, Topics = [77], Data = [], BlockNumber = 10, TxHash = 500, TxIndex = 0,
      BlockHash = 1010, Index = 4, Removed = False\<rparr>"

definition exampleHead12 :: Head where
  "exampleHead12 = \<lparr>Number = 12, Hash = 1012, ParentHash = 1011\<rparr>"

definition examplePooled :: broadcaster where
  "examplePooled = exampleRestart\<lparr>logPool := [exampleLog]\<rparr>"

definition exampleZeroConf :: broadcaster where
  "exampleZeroConf =
     examplePooled\<lparr>registrations :=
        \<lparr>subscribers = [exampleRegistration\<lparr>opts := exampleOpts\<lparr>NumConfirmations := 0\<rparr>\<rparr>],
         highestNumConfirmations = 0\<rparr>\<rparr>"

definition exampleZeroConfHeads :: broadcaster where
  "exampleZeroConfHeads = fst (OnNewLongestChain exampleHead12 exampleZeroConf)"

text \<open>A second log, of block 11.\<close>

definition exampleLog2 :: RawLog where
  "exampleLog2 = exampleLog\<lparr>BlockNumber := 11, BlockHash := 1011, Index := 0\<rparr>"

text \<open>
  A state whose three mailboxes each hold an item of an unexpected type.
\<close>

definition exampleMalformed :: broadcaster where
  "exampleMalformed =
     exampleRestart
       \<lparr>addSubscriberMb := \<lparr>queue = [OtherItem ''x'', RegistrationItem exampleRegistration], capacity = 0\<rparr>,
        rmSubscriberMb := \<lparr>queue = [HeadItem exampleHead, RegistrationItem exampleRegistration], capacity = 0\<rparr>,
        newHeads := \<lparr>queue = [OtherItem ''y''], capacity = 1\<rparr>\<rparr>"

definition ormEmpty :: ORM where
  "ormEmpty lo hi = Inr []"

definition ormFailing :: ORM where
  "ormFailing lo hi = Inl ''connection refused''"

lemmas example_defs =
  exampleConfig_def exampleHead_def exampleOpts_def exampleRegistration_def
  exampleRegistrations_def exampleRestart_def exampleRestartSkip_def
  NewBroadcaster_def NewMailbox_def newRegistrations_def newLogPool_def

lemmas example_defs2 =
  example_defs exampleLog_def exampleHead12_def examplePooled_def exampleZeroConf_def

section \<open>Properties\<close>

subsection \<open>Signed arithmetic on 64-bit words\<close>

lemma sub_as_int:
  fixes a b :: "64 word"
  shows "a - b = word_of_int (sint a - uint b)"
  by simp

lemma sint_sub_in_range:
  fixes a b :: "64 word"
  assumes "- (2 ^ 63) \<le> sint a - uint b"
  shows "sint (a - b) = sint a - uint b"
proof -
  have lt: "sint a < 2 ^ 63" using sint_lt [of a] by simp
  have ge: "0 \<le> uint b" by simp
  have "sint (a - b) = signed_take_bit 63 (sint a - uint b)"
    by (subst sub_as_int) (simp only: sint_sbintrunc', simp)
  also have "\<dots> = sint a - uint b"
    by (rule signed_take_bit_int_eq_self) (use assms lt ge in linarith)+
  finally show ?thesis .
qed

lemma sint_sub2_in_range:
  fixes a b c :: "64 word"
  assumes "- (2 ^ 63) \<le> sint a - uint b - uint c"
  shows "sint (a - b - c) = sint a - uint b - uint c"
proof -
  have "0 \<le> uint c" by simp
  with assms have "- (2 ^ 63) \<le> sint a - uint b" by linarith
  then have ab: "sint (a - b) = sint a - uint b" by (rule sint_sub_in_range)
  with assms have "- (2 ^ 63) \<le> sint (a - b) - uint c" by simp
  then have "sint (a - b - c) = sint (a - b) - uint c" by (rule sint_sub_in_range)
  with ab show ?thesis by simp
qed

lemma uint_nonneg_sint:
  fixes w :: "64 word"
  assumes "0 \<le> sint w"
  shows "uint w = sint w"
proof -
  have "sint w < 2 ^ 63" using sint_lt [of w] by simp
  then have "sint w < 2 ^ 64" by simp
  then have "take_bit 64 (sint w) = sint w"
    using assms by (simp add: take_bit_int_eq_self)
  then show ?thesis using uint_sint [of w] by simp
qed

subsection \<open>Connect\<close>

text \<open>
  Claim C10. For every head, \<open>Connect\<close> returns nil and leaves every field of the
  broadcaster as it was: the broadcaster it returns is the one it was given.
\<close>

theorem Connect_is_noop:
  "Connect head b = (None, b)"
  unfolding Connect_def by (rule refl)

subsection \<open>Register\<close>

text \<open>
  Claim C8. \<open>Register\<close> rejects options whose \<open>LogsWithTopics\<close> is empty: for every
  listener and every broadcaster the call ends in the fatal error, and it has no result
  in which a registration was delivered to the subscription mailbox.
\<close>

theorem Register_rejects_empty_topics:
  assumes "length (LogsWithTopics os) = 0"
  shows "Register l os b =
           Inl (Fatal ''LogBroadcaster: Must supply at least 1 LogsWithTopics element to Register'')
         \<and> (\<forall>reg b' es. Register l os b \<noteq> Inr (reg, b', es))"
  using assms by (simp add: Register_def)

theorem Register_rejects_empty_topics_witness:
  "Register ''J'' (exampleOpts\<lparr>LogsWithTopics := []\<rparr>) exampleRestart =
     Inl (Fatal ''LogBroadcaster: Must supply at least 1 LogsWithTopics element to Register'')"
proof -
  have "length (LogsWithTopics (exampleOpts\<lparr>LogsWithTopics := []\<rparr>)) = 0" by simp
  from Register_rejects_empty_topics [OF this] show ?thesis by blast
qed

subsection \<open>The start of the backfill\<close>

lemma backfillStart_no_skip:
  assumes "highestSavedHead b = Some h" "\<not> BlockBackfillSkip (config b)"
  shows "fst (backfillStart b) =
           b\<lparr>backfillBlockNumber :=
                \<lparr>Int64 = (let from = Number h - highestNumConfirmations (registrations b)
                                   - BlockBackfillDepth (config b)
                            in if sint from < 0 then 0 else from),
                 Valid = True\<rparr>,
              highestSavedHead := None\<rparr>"
  using assms by (simp add: backfillStart_def Let_def)

lemma backfillStart_skip:
  assumes "highestSavedHead b = Some h" "BlockBackfillSkip (config b)"
  shows "fst (backfillStart b) = b\<lparr>highestSavedHead := None\<rparr>"
  using assms by (simp add: backfillStart_def Let_def)

lemma backfillStart_no_saved_head:
  assumes "highestSavedHead b = None"
  shows "fst (backfillStart b) = b"
  using assms by (simp add: backfillStart_def Let_def)

lemma resubscribePass_backfill_argument:
  "BackfillLogs (backfillBlockNumber (fst (backfillStart b)))
      (fst (addressesAndTopics (registrations b))) (snd (addressesAndTopics (registrations b)))
     \<in> set (snd (snd (resubscribePass False backfillAbort b)))"
  by (simp add: resubscribePass_def Let_def split: prod.splits)

text \<open>
  Claim C3. While resubscribing with a saved head \<open>h\<close>: when \<open>BlockBackfillSkip\<close> is not
  set, the saved head is cleared and the backfill block number is set to
  \<open>number - highestNumConfirmations - BlockBackfillDepth\<close>, computed in \<open>int64\<close> and
  replaced by 0 when negative; whenever that subtraction stays within \<open>int64\<close> this is the
  spec's \<open>max(0, number - highestNumConfirmations - BlockBackfillDepth)\<close> over the
  integers. When \<open>BlockBackfillSkip\<close> is set, the saved head is dropped and nothing else
  changes, so the backfill block number is not set. In both cases \<open>backfillLogs\<close> is
  called with the backfill block number so chosen.
\<close>

theorem backfillStart_from_saved_head:
  assumes saved: "highestSavedHead b = Some h"
  shows "(\<not> BlockBackfillSkip (config b) \<longrightarrow>
            highestSavedHead (fst (backfillStart b)) = None
          \<and> Valid (backfillBlockNumber (fst (backfillStart b)))
          \<and> Int64 (backfillBlockNumber (fst (backfillStart b))) =
               (let from = Number h - highestNumConfirmations (registrations b)
                             - BlockBackfillDepth (config b)
                in if sint from < 0 then 0 else from)
          \<and> (- (2 ^ 63) \<le> sint (Number h) - uint (highestNumConfirmations (registrations b))
                              - uint (BlockBackfillDepth (config b)) \<longrightarrow>
               sint (Int64 (backfillBlockNumber (fst (backfillStart b)))) =
                 spec_backfill_from (sint (Number h))
                   (uint (highestNumConfirmations (registrations b)))
                   (uint (BlockBackfillDepth (config b)))))
       \<and> (BlockBackfillSkip (config b) \<longrightarrow>
            fst (backfillStart b) = b\<lparr>highestSavedHead := None\<rparr>)
       \<and> BackfillLogs (backfillBlockNumber (fst (backfillStart b)))
            (fst (addressesAndTopics (registrations b))) (snd (addressesAndTopics (registrations b)))
           \<in> set (snd (snd (resubscribePass False backfillAbort b)))"
proof (intro conjI impI)
  assume ns: "\<not> BlockBackfillSkip (config b)"
  note eq = backfillStart_no_skip [OF saved ns]
  show "highestSavedHead (fst (backfillStart b)) = None" by (simp add: eq)
  show "Valid (backfillBlockNumber (fst (backfillStart b)))" by (simp add: eq)
  show "Int64 (backfillBlockNumber (fst (backfillStart b))) =
               (let from = Number h - highestNumConfirmations (registrations b)
                             - BlockBackfillDepth (config b)
                in if sint from < 0 then 0 else from)" by (simp add: eq)
  assume r: "- (2 ^ 63) \<le> sint (Number h) - uint (highestNumConfirmations (registrations b))
                              - uint (BlockBackfillDepth (config b))"
  show "sint (Int64 (backfillBlockNumber (fst (backfillStart b)))) =
                 spec_backfill_from (sint (Number h))
                   (uint (highestNumConfirmations (registrations b)))
                   (uint (BlockBackfillDepth (config b)))"
    by (simp add: eq Let_def spec_backfill_from_def sint_sub2_in_range [OF r])
next
  assume "BlockBackfillSkip (config b)"
  then show "fst (backfillStart b) = b\<lparr>highestSavedHead := None\<rparr>"
    by (rule backfillStart_skip [OF saved])
next
  show "BackfillLogs (backfillBlockNumber (fst (backfillStart b)))
            (fst (addressesAndTopics (registrations b))) (snd (addressesAndTopics (registrations b)))
           \<in> set (snd (snd (resubscribePass False backfillAbort b)))"
    by (rule resubscribePass_backfill_argument)
qed

theorem backfillStart_from_saved_head_witness:
  "sint (Int64 (backfillBlockNumber (fst (backfillStart exampleRestart)))) = 7
   \<and> Valid (backfillBlockNumber (fst (backfillStart exampleRestart)))
   \<and> highestSavedHead (fst (backfillStart exampleRestart)) = None
   \<and> fst (backfillStart exampleRestartSkip) = exampleRestartSkip\<lparr>highestSavedHead := None\<rparr>
   \<and> backfillBlockNumber (fst (backfillStart exampleRestartSkip)) = \<lparr>Int64 = 0, Valid = False\<rparr>"
proof -
  have s1: "highestSavedHead exampleRestart = Some exampleHead" by (simp add: example_defs)
  have s2: "highestSavedHead exampleRestartSkip = Some exampleHead" by (simp add: example_defs)
  have ns: "\<not> BlockBackfillSkip (config exampleRestart)" by (simp add: example_defs)
  have sk: "BlockBackfillSkip (config exampleRestartSkip)" by (simp add: example_defs)
  have r: "- (2 ^ 63) \<le> sint (Number exampleHead)
             - uint (highestNumConfirmations (registrations exampleRestart))
             - uint (BlockBackfillDepth (config exampleRestart))"
    by (simp add: example_defs)
  have v: "spec_backfill_from (sint (Number exampleHead))
             (uint (highestNumConfirmations (registrations exampleRestart)))
             (uint (BlockBackfillDepth (config exampleRestart))) = 7"
    by (simp add: example_defs spec_backfill_from_def)
  note t1 = backfillStart_from_saved_head [OF s1, of False]
  note t2 = backfillStart_from_saved_head [OF s2, of False]
  from t1 ns r have a1: "sint (Int64 (backfillBlockNumber (fst (backfillStart exampleRestart)))) =
      spec_backfill_from (sint (Number exampleHead))
             (uint (highestNumConfirmations (registrations exampleRestart)))
             (uint (BlockBackfillDepth (config exampleRestart)))"
    by blast
  from t1 ns have a2: "Valid (backfillBlockNumber (fst (backfillStart exampleRestart)))"
    by blast
  from t1 ns have a3: "highestSavedHead (fst (backfillStart exampleRestart)) = None"
    by blast
  from a1 v a2 a3 have a: "sint (Int64 (backfillBlockNumber (fst (backfillStart exampleRestart)))) = 7
     \<and> Valid (backfillBlockNumber (fst (backfillStart exampleRestart)))
     \<and> highestSavedHead (fst (backfillStart exampleRestart)) = None"
    by (simp only:) 
  from t2 sk have b: "fst (backfillStart exampleRestartSkip) = exampleRestartSkip\<lparr>highestSavedHead := None\<rparr>"
    by blast
  then have c: "backfillBlockNumber (fst (backfillStart exampleRestartSkip)) = \<lparr>Int64 = 0, Valid = False\<rparr>"
    by (simp add: example_defs)
  from a b c show ?thesis by simp
qed

subsection \<open>The dispatch pass\<close>

lemma uint_evictBelow:
  assumes "- (2 ^ 63) \<le> sint (Number h) - uint (keptDepthOf b)"
  shows "uint (evictBelow h b) = spec_evict_below (sint (Number h)) (uint (keptDepthOf b))"
proof -
  have s: "sint (Number h - keptDepthOf b) = sint (Number h) - uint (keptDepthOf b)"
    using assms by (rule sint_sub_in_range)
  show ?thesis
  proof (cases "sint (Number h - keptDepthOf b) < 0")
    case True
    then show ?thesis using s by (simp add: evictBelow_def Let_def spec_evict_below_def)
  next
    case False
    then have "uint (Number h - keptDepthOf b) = sint (Number h - keptDepthOf b)"
      by (simp add: uint_nonneg_sint)
    then show ?thesis using False s by (simp add: evictBelow_def Let_def spec_evict_below_def)
  qed
qed

lemma uint_keptDepthOf:
  "uint (keptDepthOf b) =
     spec_kept_depth (uint (EthFinalityDepth (config b))) (uint (highestNumConfirmations (registrations b)))"
  by (simp add: keptDepthOf_def spec_kept_depth_def max_def word_le_def)

lemma dispatch_zero:
  assumes "highestNumConfirmations (registrations b) = 0"
  shows "dispatch orm h b =
     (let logs = fst (fst (getAndDeleteAll (logPool b)));
          lo = fst (snd (fst (getAndDeleteAll (logPool b))));
          hi = snd (snd (fst (getAndDeleteAll (logPool b))));
          b1 = b\<lparr>lastSeenHeadNumber := Number h, logPool := snd (getAndDeleteAll (logPool b))\<rparr>
      in if logs = [] then (b1, [LogDebug ''LogBroadcaster: Received head''])
         else (case orm lo hi of
                 Inl err \<Rightarrow> (b1, [LogDebug ''LogBroadcaster: Received head'', FindConsumedLogs lo hi,
                                  LogError ''Failed to query for log broadcasts''])
               | Inr bs \<Rightarrow> (b1, [LogDebug ''LogBroadcaster: Received head'', FindConsumedLogs lo hi,
                                SendLogs logs h bs])))"
  using assms by (simp add: dispatch_def Let_def split: prod.splits sum.splits)

lemma dispatch_nonzero:
  assumes "highestNumConfirmations (registrations b) \<noteq> 0"
  shows "dispatch orm h b =
     (let logs = fst (getLogsToSend (Number h) (logPool b));
          minBlockNum = snd (getLogsToSend (Number h) (logPool b));
          b1 = b\<lparr>lastSeenHeadNumber := Number h\<rparr>;
          b2 = b\<lparr>lastSeenHeadNumber := Number h,
                 logPool := deleteOlderLogs (evictBelow h b) (logPool b)\<rparr>
      in if logs = [] then (b2, [LogDebug ''LogBroadcaster: Received head''])
         else (case orm minBlockNum (Number h) of
                 Inl err \<Rightarrow> (b1, [LogDebug ''LogBroadcaster: Received head'', FindConsumedLogs minBlockNum (Number h),
                                  LogError ''LogBroadcaster: Failed to query for log broadcasts''])
               | Inr bs \<Rightarrow> (b2, [LogDebug ''LogBroadcaster: Received head'', FindConsumedLogs minBlockNum (Number h),
                                SendLogs logs h bs])))"
  using assms
  by (auto simp: dispatch_def Let_def keptDepthOf_def max_def evictBelow_def split: prod.splits sum.splits)

lemma getAndDeleteAll_drains:
  "snd (getAndDeleteAll pool) = [] \<and> set (fst (fst (getAndDeleteAll pool))) = set pool"
  by (simp add: getAndDeleteAll_def Let_def)

lemma getAndDeleteAll_empty_iff:
  "fst (fst (getAndDeleteAll pool)) = [] \<longleftrightarrow> pool = []"
  by (simp add: getAndDeleteAll_def Let_def flip: set_empty)

lemma set_getLogsToSend:
  "set (fst (getLogsToSend H pool)) = {l \<in> set pool. uint (BlockNumber l) \<le> sint H}"
  by (auto simp: getLogsToSend_def Let_def)

lemma dispatch_zero_effects:
  assumes z: "highestNumConfirmations (registrations b) = 0"
      and e: "e \<in> set (snd (dispatch orm h b))"
  shows "sentLogs e = [] \<or> sentLogs e = fst (fst (getAndDeleteAll (logPool b)))"
proof (cases "fst (fst (getAndDeleteAll (logPool b))) = []")
  case True
  with e show ?thesis by (simp add: dispatch_zero [OF z] Let_def)
next
  case False
  show ?thesis
  proof (cases "orm (fst (snd (fst (getAndDeleteAll (logPool b)))))
                    (snd (snd (fst (getAndDeleteAll (logPool b)))))")
    case (Inl err)
    with e False show ?thesis by (auto simp add: dispatch_zero [OF z] Let_def)
  next
    case (Inr bs)
    with e False show ?thesis by (auto simp add: dispatch_zero [OF z] Let_def)
  qed
qed

lemma dispatch_nonzero_effects:
  assumes nz: "highestNumConfirmations (registrations b) \<noteq> 0"
      and e: "e \<in> set (snd (dispatch orm h b))"
  shows "sentLogs e = [] \<or> sentLogs e = fst (getLogsToSend (Number h) (logPool b))"
proof (cases "fst (getLogsToSend (Number h) (logPool b)) = []")
  case True
  with e show ?thesis by (simp add: dispatch_nonzero [OF nz] Let_def)
next
  case False
  show ?thesis
  proof (cases "orm (snd (getLogsToSend (Number h) (logPool b))) (Number h)")
    case (Inl err)
    with e False show ?thesis by (auto simp add: dispatch_nonzero [OF nz] Let_def)
  next
    case (Inr bs)
    with e False show ?thesis by (auto simp add: dispatch_nonzero [OF nz] Let_def)
  qed
qed

lemma dispatch_sends_from_pool:
  assumes "e \<in> set (snd (dispatch orm h b))"
  shows "set (sentLogs e) \<subseteq> set (logPool b)"
proof (cases "highestNumConfirmations (registrations b) = 0")
  case True
  have d: "set (fst (fst (getAndDeleteAll (logPool b)))) = set (logPool b)"
    using getAndDeleteAll_drains by blast
  from dispatch_zero_effects [OF True assms] show ?thesis
  proof
    assume "sentLogs e = []"
    then show ?thesis by simp
  next
    assume "sentLogs e = fst (fst (getAndDeleteAll (logPool b)))"
    then have "set (sentLogs e) = set (logPool b)" by (simp only: d)
    then show ?thesis by simp
  qed
next
  case False
  have d: "set (fst (getLogsToSend (Number h) (logPool b))) \<subseteq> set (logPool b)"
    by (simp add: set_getLogsToSend)
  from dispatch_nonzero_effects [OF False assms] show ?thesis
  proof
    assume "sentLogs e = []"
    then show ?thesis by simp
  next
    assume "sentLogs e = fst (getLogsToSend (Number h) (logPool b))"
    then show ?thesis using d by (simp only:)
  qed
qed

lemma ormEmpty_ok: "\<forall>lo hi. ormEmpty lo hi = Inr ((\<lambda>lo hi. []) lo hi)"
  by (simp add: ormEmpty_def)

lemma example_getLogsToSend: "getLogsToSend 12 (logPool examplePooled) = ([exampleLog], 10)"
  by (simp add: getLogsToSend_def Let_def lowestBlock_def blockNumbers_def example_defs2)

lemma example_getAndDeleteAll: "getAndDeleteAll (logPool exampleZeroConf) = (([exampleLog], 10, 10), [])"
  by (simp add: getAndDeleteAll_def Let_def lowestBlock_def highestBlock_def blockNumbers_def example_defs2)

lemma example_evictBelow: "evictBelow exampleHead12 examplePooled = 0"
  by (simp add: evictBelow_def keptDepthOf_def Let_def example_defs2)

lemma example_deleteOlderLogs: "deleteOlderLogs 0 (logPool examplePooled) = [exampleLog]"
  by (simp add: deleteOlderLogs_def example_defs2)

text \<open>
  Claim C4. A dispatch pass for a head with number \<open>H\<close>, when the persistence query does
  not fail (what a failing query does is claim C1). If \<open>highestNumConfirmations\<close> is 0
  the pool is drained entirely by \<open>getAndDeleteAll\<close>; \<open>FindConsumedLogs(lo, hi)\<close> is
  queried and \<open>sendLogs\<close> is called exactly when the drained logs are not empty.
  Otherwise the logs of \<open>getLogsToSend(H)\<close> are used; \<open>FindConsumedLogs(min_block, H)\<close>
  is queried and \<open>sendLogs\<close> is called exactly when they are not empty, and the pool is
  then the old pool after \<open>deleteOlderLogs(keptDepth)\<close>, where \<open>keptDepth\<close> is
  \<open>H - max(EthFinalityDepth, highestNumConfirmations)\<close> in \<open>int64\<close>, replaced by 0 when
  negative: the spec's \<open>max(H - kept_depth, 0)\<close> over the integers whenever the
  subtraction stays within \<open>int64\<close>. The pass also stores \<open>H\<close> as the last seen head number.
\<close>

theorem dispatch_pass:
  assumes ok: "\<forall>lo hi. orm lo hi = Inr (rows lo hi)"
  shows "lastSeenHeadNumber (fst (dispatch orm h b)) = Number h
   \<and> (highestNumConfirmations (registrations b) = 0 \<longrightarrow>
        (let logs = fst (fst (getAndDeleteAll (logPool b)));
             lo = fst (snd (fst (getAndDeleteAll (logPool b))));
             hi = snd (snd (fst (getAndDeleteAll (logPool b))))
         in set logs = set (logPool b)
            \<and> logPool (fst (dispatch orm h b)) = []
            \<and> filter isQuery (snd (dispatch orm h b)) =
                 (if logs = [] then [] else [FindConsumedLogs lo hi])
            \<and> filter isSendLogs (snd (dispatch orm h b)) =
                 (if logs = [] then [] else [SendLogs logs h (rows lo hi)])))
   \<and> (highestNumConfirmations (registrations b) \<noteq> 0 \<longrightarrow>
        (let logs = fst (getLogsToSend (Number h) (logPool b));
             minBlockNum = snd (getLogsToSend (Number h) (logPool b))
         in filter isQuery (snd (dispatch orm h b)) =
                 (if logs = [] then [] else [FindConsumedLogs minBlockNum (Number h)])
            \<and> filter isSendLogs (snd (dispatch orm h b)) =
                 (if logs = [] then [] else [SendLogs logs h (rows minBlockNum (Number h))])
            \<and> logPool (fst (dispatch orm h b)) = deleteOlderLogs (evictBelow h b) (logPool b)
            \<and> (- (2 ^ 63) \<le> sint (Number h) - uint (keptDepthOf b) \<longrightarrow>
                 uint (evictBelow h b) =
                   spec_evict_below (sint (Number h))
                     (spec_kept_depth (uint (EthFinalityDepth (config b)))
                        (uint (highestNumConfirmations (registrations b)))))))"
proof (intro conjI impI)
  show "lastSeenHeadNumber (fst (dispatch orm h b)) = Number h"
    by (cases "highestNumConfirmations (registrations b) = 0")
       (simp_all add: dispatch_zero dispatch_nonzero Let_def ok)
next
  assume z: "highestNumConfirmations (registrations b) = 0"
  show "let logs = fst (fst (getAndDeleteAll (logPool b)));
             lo = fst (snd (fst (getAndDeleteAll (logPool b))));
             hi = snd (snd (fst (getAndDeleteAll (logPool b))))
         in set logs = set (logPool b)
            \<and> logPool (fst (dispatch orm h b)) = []
            \<and> filter isQuery (snd (dispatch orm h b)) =
                 (if logs = [] then [] else [FindConsumedLogs lo hi])
            \<and> filter isSendLogs (snd (dispatch orm h b)) =
                 (if logs = [] then [] else [SendLogs logs h (rows lo hi)])"
    by (simp add: dispatch_zero [OF z] Let_def ok getAndDeleteAll_drains)
next
  assume nz: "highestNumConfirmations (registrations b) \<noteq> 0"
  show "let logs = fst (getLogsToSend (Number h) (logPool b));
             minBlockNum = snd (getLogsToSend (Number h) (logPool b))
         in filter isQuery (snd (dispatch orm h b)) =
                 (if logs = [] then [] else [FindConsumedLogs minBlockNum (Number h)])
            \<and> filter isSendLogs (snd (dispatch orm h b)) =
                 (if logs = [] then [] else [SendLogs logs h (rows minBlockNum (Number h))])
            \<and> logPool (fst (dispatch orm h b)) = deleteOlderLogs (evictBelow h b) (logPool b)
            \<and> (- (2 ^ 63) \<le> sint (Number h) - uint (keptDepthOf b) \<longrightarrow>
                 uint (evictBelow h b) =
                   spec_evict_below (sint (Number h))
                     (spec_kept_depth (uint (EthFinalityDepth (config b)))
                        (uint (highestNumConfirmations (registrations b)))))"
    by (simp add: dispatch_nonzero [OF nz] Let_def ok uint_evictBelow flip: uint_keptDepthOf)
qed

theorem dispatch_pass_witness:
  "logPool (fst (dispatch ormEmpty exampleHead12 examplePooled)) = [exampleLog]
   \<and> filter isQuery (snd (dispatch ormEmpty exampleHead12 examplePooled)) = [FindConsumedLogs 10 12]
   \<and> filter isSendLogs (snd (dispatch ormEmpty exampleHead12 examplePooled))
        = [SendLogs [exampleLog] exampleHead12 []]
   \<and> uint (evictBelow exampleHead12 examplePooled) = 0
   \<and> logPool (fst (dispatch ormEmpty exampleHead12 exampleZeroConf)) = []
   \<and> filter isSendLogs (snd (dispatch ormEmpty exampleHead12 exampleZeroConf))
        = [SendLogs [exampleLog] exampleHead12 []]"
proof -
  have nz: "highestNumConfirmations (registrations examplePooled) \<noteq> 0"
    by (simp add: example_defs2)
  have z: "highestNumConfirmations (registrations exampleZeroConf) = 0"
    by (simp add: example_defs2)
  have n: "Number exampleHead12 = 12" by (simp add: example_defs2)
  note a = dispatch_pass [OF ormEmpty_ok, of exampleHead12 examplePooled]
  note b = dispatch_pass [OF ormEmpty_ok, of exampleHead12 exampleZeroConf]
  from a nz have a1:
    "let logs = fst (getLogsToSend (Number exampleHead12) (logPool examplePooled));
         minBlockNum = snd (getLogsToSend (Number exampleHead12) (logPool examplePooled))
     in filter isQuery (snd (dispatch ormEmpty exampleHead12 examplePooled)) =
          (if logs = [] then [] else [FindConsumedLogs minBlockNum (Number exampleHead12)])
        \<and> filter isSendLogs (snd (dispatch ormEmpty exampleHead12 examplePooled)) =
          (if logs = [] then [] else [SendLogs logs exampleHead12 []])
        \<and> logPool (fst (dispatch ormEmpty exampleHead12 examplePooled)) =
            deleteOlderLogs (evictBelow exampleHead12 examplePooled) (logPool examplePooled)"
    by (simp add: Let_def)
  from b z have b1:
    "let logs = fst (fst (getAndDeleteAll (logPool exampleZeroConf)))
     in logPool (fst (dispatch ormEmpty exampleHead12 exampleZeroConf)) = []
        \<and> filter isSendLogs (snd (dispatch ormEmpty exampleHead12 exampleZeroConf)) =
            (if logs = [] then [] else [SendLogs logs exampleHead12 []])"
    by (simp add: Let_def)
  from a1 b1 show ?thesis by (simp add: Let_def example_getLogsToSend example_getAndDeleteAll example_evictBelow example_deleteOlderLogs n)
qed

subsection \<open>New raw logs\<close>

lemma set_removeLog: "set (removeLog l pool) = {x \<in> set pool. logKey x \<noteq> logKey l}"
  by (auto simp: removeLog_def)

lemma set_addLog: "set (addLog l pool) = insert l {x \<in> set pool. logKey x \<noteq> logKey l}"
  by (auto simp: addLog_def)

lemma onNewLog_frame: "fst (onNewLog log b) = b\<lparr>logPool := logPool (fst (onNewLog log b))\<rparr>"
  by (simp add: onNewLog_def Let_def)

lemma onNewLog_pool:
  "logPool (fst (onNewLog log b)) =
     (if Removed log then removeLog log (logPool b)
      else if isAddressRegistered (registrations b) (Address log) then addLog log (logPool b)
      else logPool b)"
  by (simp add: onNewLog_def Let_def)

text \<open>
  Claim C5. For every raw log the event loop receives, \<open>onNewLog\<close> changes nothing but
  the pool. If the log is marked removed, the entry with its \<open>(block_hash, log_index)\<close>
  is erased and the log is not stored, so no later dispatch pass sends a log with that
  key. If it is not marked removed, it is added to the pool when its address is
  registered, and otherwise the broadcaster is left as it was.
\<close>

theorem onNewLog_updates_pool:
  "fst (onNewLog log b) = b\<lparr>logPool := logPool (fst (onNewLog log b))\<rparr>
   \<and> logPool (fst (onNewLog log b)) =
       (if Removed log then removeLog log (logPool b)
        else if isAddressRegistered (registrations b) (Address log) then addLog log (logPool b)
        else logPool b)
   \<and> (Removed log \<longrightarrow>
        (\<forall>l \<in> set (logPool (fst (onNewLog log b))). logKey l \<noteq> logKey log)
        \<and> log \<notin> set (logPool (fst (onNewLog log b)))
        \<and> (\<forall>e \<in> set (snd (dispatch orm h (fst (onNewLog log b)))).
              \<forall>l \<in> set (sentLogs e). logKey l \<noteq> logKey log))
   \<and> (\<not> Removed log \<and> isAddressRegistered (registrations b) (Address log) \<longrightarrow>
        log \<in> set (logPool (fst (onNewLog log b))))
   \<and> (\<not> Removed log \<and> \<not> isAddressRegistered (registrations b) (Address log) \<longrightarrow>
        fst (onNewLog log b) = b)"
proof (intro conjI impI)
  show "fst (onNewLog log b) = b\<lparr>logPool := logPool (fst (onNewLog log b))\<rparr>"
    by (rule onNewLog_frame)
  show "logPool (fst (onNewLog log b)) =
       (if Removed log then removeLog log (logPool b)
        else if isAddressRegistered (registrations b) (Address log) then addLog log (logPool b)
        else logPool b)"
    by (rule onNewLog_pool)
next
  assume r: "Removed log"
  then have p: "set (logPool (fst (onNewLog log b))) = {x \<in> set (logPool b). logKey x \<noteq> logKey log}"
    by (simp add: onNewLog_pool set_removeLog)
  show "\<forall>l \<in> set (logPool (fst (onNewLog log b))). logKey l \<noteq> logKey log"
    using p by simp
  show "log \<notin> set (logPool (fst (onNewLog log b)))"
    using p by simp
  show "\<forall>e \<in> set (snd (dispatch orm h (fst (onNewLog log b)))).
              \<forall>l \<in> set (sentLogs e). logKey l \<noteq> logKey log"
  proof (intro ballI)
    fix e l
    assume e: "e \<in> set (snd (dispatch orm h (fst (onNewLog log b))))"
       and l: "l \<in> set (sentLogs e)"
    from dispatch_sends_from_pool [OF e] l
    have "l \<in> set (logPool (fst (onNewLog log b)))" by blast
    with p show "logKey l \<noteq> logKey log" by simp
  qed
next
  assume "\<not> Removed log \<and> isAddressRegistered (registrations b) (Address log)"
  then show "log \<in> set (logPool (fst (onNewLog log b)))"
    by (simp add: onNewLog_pool set_addLog)
next
  assume "\<not> Removed log \<and> \<not> isAddressRegistered (registrations b) (Address log)"
  then show "fst (onNewLog log b) = b"
    by (simp add: onNewLog_def Let_def)
qed

theorem onNewLog_updates_pool_witness:
  "logPool (fst (onNewLog (exampleLog\<lparr>Removed := True\<rparr>) examplePooled)) = []
   \<and> logPool (fst (onNewLog (exampleLog\<lparr>Index := 5\<rparr>) examplePooled))
        = [exampleLog\<lparr>Index := 5\<rparr>, exampleLog]
   \<and> fst (onNewLog (exampleLog\<lparr>Address := 13\<rparr>) examplePooled) = examplePooled"
proof -
  have r: "isAddressRegistered (registrations examplePooled) (Address (exampleLog\<lparr>Index := 5\<rparr>))"
    by (simp add: isAddressRegistered_def example_defs2)
  have nr: "\<not> Removed (exampleLog\<lparr>Address := 13\<rparr>)
            \<and> \<not> isAddressRegistered (registrations examplePooled) (Address (exampleLog\<lparr>Address := 13\<rparr>))"
    by (simp add: isAddressRegistered_def example_defs2)
  note a = onNewLog_updates_pool [of "exampleLog\<lparr>Removed := True\<rparr>" examplePooled ormEmpty exampleHead12]
  note b = onNewLog_updates_pool [of "exampleLog\<lparr>Index := 5\<rparr>" examplePooled ormEmpty exampleHead12]
  note c = onNewLog_updates_pool [of "exampleLog\<lparr>Address := 13\<rparr>" examplePooled ormEmpty exampleHead12]
  from a have a1: "logPool (fst (onNewLog (exampleLog\<lparr>Removed := True\<rparr>) examplePooled))
        = removeLog (exampleLog\<lparr>Removed := True\<rparr>) (logPool examplePooled)"
    by simp
  from b r have b1: "logPool (fst (onNewLog (exampleLog\<lparr>Index := 5\<rparr>) examplePooled))
        = addLog (exampleLog\<lparr>Index := 5\<rparr>) (logPool examplePooled)"
    by (simp add: exampleLog_def)
  from c nr have c1: "fst (onNewLog (exampleLog\<lparr>Address := 13\<rparr>) examplePooled) = examplePooled"
    by blast
  have a2: "removeLog (exampleLog\<lparr>Removed := True\<rparr>) (logPool examplePooled) = []"
    by (simp add: removeLog_def logKey_def example_defs2)
  have b2: "addLog (exampleLog\<lparr>Index := 5\<rparr>) (logPool examplePooled)
              = [exampleLog\<lparr>Index := 5\<rparr>, exampleLog]"
    by (simp add: addLog_def logKey_def example_defs2)
  from a1 a2 b1 b2 c1 show ?thesis by (simp only:)
qed

subsection \<open>A failing persistence query\<close>

lemma dispatch_failure_no_sendLogs:
  assumes "\<forall>lo hi. orm lo hi = Inl (err lo hi)"
  shows "filter isSendLogs (snd (dispatch orm h b)) = []"
proof (cases "highestNumConfirmations (registrations b) = 0")
  case True
  show ?thesis by (simp add: dispatch_zero [OF True] Let_def assms)
next
  case False
  show ?thesis by (simp add: dispatch_nonzero [OF False] Let_def assms)
qed

lemma dispatch_failure_keeps_pool:
  assumes nz: "highestNumConfirmations (registrations b) \<noteq> 0"
      and logs: "fst (getLogsToSend (Number h) (logPool b)) \<noteq> []"
      and fails: "orm (snd (getLogsToSend (Number h) (logPool b))) (Number h) = Inl err"
  shows "logPool (fst (dispatch orm h b)) = logPool b"
  using logs fails by (simp add: dispatch_nonzero [OF nz] Let_def)

lemma drainNewHeads_empty:
  "queue m = [] \<Longrightarrow> drainNewHeads m latest = (m, latest, [])"
  by (subst drainNewHeads.simps) (simp add: RetrieveLatestAndClear_def)

lemma drainNewHeads_head:
  "queue m \<noteq> [] \<Longrightarrow> last (queue m) = HeadItem h \<Longrightarrow>
     drainNewHeads m latest = (m\<lparr>queue := []\<rparr>, Some h, [])"
  by (subst drainNewHeads.simps) (simp add: RetrieveLatestAndClear_def drainNewHeads_empty)

lemma onNewHeads_head:
  assumes "queue (newHeads b) \<noteq> []" "last (queue (newHeads b)) = HeadItem h"
  shows "onNewHeads orm b = dispatch orm h (b\<lparr>newHeads := (newHeads b)\<lparr>queue := []\<rparr>\<rparr>)"
  using assms by (simp add: onNewHeads_def drainNewHeads_head)

lemma example_newHeads:
  "newHeads exampleZeroConfHeads = \<lparr>queue = [HeadItem exampleHead12], capacity = 1\<rparr>"
  by (simp add: exampleZeroConfHeads_def OnNewLongestChain_def Deliver_def example_defs2)

lemma example_logPool:
  "logPool exampleZeroConfHeads = [exampleLog]
   \<and> highestNumConfirmations (registrations exampleZeroConfHeads) = 0"
  by (simp add: exampleZeroConfHeads_def OnNewLongestChain_def Deliver_def example_defs2)

text \<open>
  Claim C1 holds in the branch for \<open>highestNumConfirmations > 0\<close>
  (\<open>dispatch_failure_keeps_pool\<close>) and, in both branches, in that \<open>sendLogs\<close> is not
  called (\<open>dispatch_failure_no_sendLogs\<close>). In the branch for
  \<open>highestNumConfirmations = 0\<close> the code loses the logs: the pool was emptied by
  \<open>getAndDeleteAll\<close> before the query, and the pass returns on the error. Here the
  pool holds the log of block 10, every listener asks for 0 confirmations, head 12 is
  in the mailbox and the query fails: after \<open>onNewHeads\<close> the pool is empty and
  \<open>sendLogs\<close> was not called.
\<close>

theorem onNewHeads_failure_loses_logs:
  "logPool exampleZeroConfHeads = [exampleLog]
   \<and> highestNumConfirmations (registrations exampleZeroConfHeads) = 0
   \<and> logPool (fst (onNewHeads ormFailing exampleZeroConfHeads)) = []
   \<and> filter isSendLogs (snd (onNewHeads ormFailing exampleZeroConfHeads)) = []
   \<and> filter isQuery (snd (onNewHeads ormFailing exampleZeroConfHeads)) = [FindConsumedLogs 10 10]"
proof -
  have q: "queue (newHeads exampleZeroConfHeads) \<noteq> []"
          "last (queue (newHeads exampleZeroConfHeads)) = HeadItem exampleHead12"
    by (simp_all add: example_newHeads)
  let ?b = "exampleZeroConfHeads\<lparr>newHeads := (newHeads exampleZeroConfHeads)\<lparr>queue := []\<rparr>\<rparr>"
  have z: "highestNumConfirmations (registrations ?b) = 0"
    by (simp add: example_logPool)
  have g: "getAndDeleteAll [exampleLog] = (([exampleLog], 10, 10), [])"
    by (simp add: getAndDeleteAll_def Let_def lowestBlock_def highestBlock_def blockNumbers_def
          exampleLog_def)
  have "onNewHeads ormFailing exampleZeroConfHeads = dispatch ormFailing exampleHead12 ?b"
    by (rule onNewHeads_head [OF q])
  then show ?thesis
    by (simp add: dispatch_zero [OF z] g Let_def ormFailing_def example_logPool)
qed

subsection \<open>Heads that pile up in the mailbox\<close>

lemma OnNewLongestChain_latest:
  assumes "capacity (newHeads b) = 1" "length (queue (newHeads b)) \<le> 1"
  shows "fst (OnNewLongestChain h b) = b\<lparr>newHeads := (newHeads b)\<lparr>queue := [HeadItem h]\<rparr>\<rparr>"
proof (cases "queue (newHeads b)")
  case Nil
  with assms show ?thesis by (simp add: OnNewLongestChain_def Deliver_def)
next
  case (Cons x xs)
  with assms have "xs = []" by simp
  with Cons assms show ?thesis by (simp add: OnNewLongestChain_def Deliver_def)
qed

lemma deliverHeads_latest:
  assumes "capacity (newHeads b) = 1" "length (queue (newHeads b)) \<le> 1" "hs \<noteq> []"
  shows "deliverHeads hs b = b\<lparr>newHeads := (newHeads b)\<lparr>queue := [HeadItem (last hs)]\<rparr>\<rparr>"
  using assms
proof (induction hs arbitrary: b)
  case Nil
  then show ?case by simp
next
  case (Cons h hs)
  let ?b1 = "b\<lparr>newHeads := (newHeads b)\<lparr>queue := [HeadItem h]\<rparr>\<rparr>"
  have step: "fst (OnNewLongestChain h b) = ?b1"
    using Cons.prems by (simp add: OnNewLongestChain_latest)
  show ?case
  proof (cases "hs = []")
    case True
    then show ?thesis by (simp add: deliverHeads_def step)
  next
    case False
    have "deliverHeads (h # hs) b = deliverHeads hs ?b1"
      by (simp add: deliverHeads_def step)
    also have "\<dots> = ?b1\<lparr>newHeads := (newHeads ?b1)\<lparr>queue := [HeadItem (last hs)]\<rparr>\<rparr>"
      using Cons.prems False by (intro Cons.IH) simp_all
    finally show ?thesis using False by simp
  qed
qed

lemma OnNewLongestChain_no_dispatch:
  "filter isSendLogs (snd (OnNewLongestChain h b)) = []
   \<and> filter isReceivedHead (snd (OnNewLongestChain h b)) = []"
  by (simp add: OnNewLongestChain_def Let_def split: prod.splits)

lemma dispatch_received_once:
  "length (filter isReceivedHead (snd (dispatch orm h b))) = 1"
proof (cases "highestNumConfirmations (registrations b) = 0")
  case True
  show ?thesis by (simp add: dispatch_zero [OF True] Let_def split: sum.splits)
next
  case False
  show ?thesis by (simp add: dispatch_nonzero [OF False] Let_def split: sum.splits)
qed

lemma dispatch_sendLogs_head:
  "filter isSendLogs (snd (dispatch orm h b)) = []
   \<or> (\<exists>logs bs. filter isSendLogs (snd (dispatch orm h b)) = [SendLogs logs h bs])"
proof (cases "highestNumConfirmations (registrations b) = 0")
  case True
  show ?thesis by (simp add: dispatch_zero [OF True] Let_def split: sum.splits)
next
  case False
  show ?thesis by (simp add: dispatch_nonzero [OF False] Let_def split: sum.splits)
qed

lemma dispatch_lastSeen: "lastSeenHeadNumber (fst (dispatch orm h b)) = Number h"
proof (cases "highestNumConfirmations (registrations b) = 0")
  case True
  show ?thesis by (simp add: dispatch_zero [OF True] Let_def split: sum.splits)
next
  case False
  show ?thesis by (simp add: dispatch_nonzero [OF False] Let_def split: sum.splits)
qed

lemma dispatch_newHeads: "newHeads (fst (dispatch orm h b)) = newHeads b"
proof (cases "highestNumConfirmations (registrations b) = 0")
  case True
  show ?thesis by (simp add: dispatch_zero [OF True] Let_def split: sum.splits)
next
  case False
  show ?thesis by (simp add: dispatch_nonzero [OF False] Let_def split: sum.splits)
qed

text \<open>
  Claim C6. The \<open>newHeads\<close> mailbox has capacity 1. When one or more heads are delivered
  by \<open>OnNewLongestChain\<close> before the event loop serves the mailbox, the mailbox holds
  only the latest of them; \<open>onNewHeads\<close> empties the mailbox and is exactly one dispatch
  pass for that latest head: it stores its number as the last seen head number, logs
  one received head, and every call of \<open>sendLogs\<close> it makes (at most one) is for that
  head. The earlier heads cause no dispatch.
\<close>

theorem onNewHeads_latest_head_only:
  assumes cap: "capacity (newHeads b) = 1"
      and len: "length (queue (newHeads b)) \<le> 1"
      and ne: "hs \<noteq> []"
  shows "queue (newHeads (deliverHeads hs b)) = [HeadItem (last hs)]
   \<and> onNewHeads orm (deliverHeads hs b) =
        dispatch orm (last hs) (b\<lparr>newHeads := (newHeads b)\<lparr>queue := []\<rparr>\<rparr>)
   \<and> lastSeenHeadNumber (fst (onNewHeads orm (deliverHeads hs b))) = Number (last hs)
   \<and> queue (newHeads (fst (onNewHeads orm (deliverHeads hs b)))) = []
   \<and> length (filter isReceivedHead (snd (onNewHeads orm (deliverHeads hs b)))) = 1
   \<and> (filter isSendLogs (snd (onNewHeads orm (deliverHeads hs b))) = []
        \<or> (\<exists>logs bs. filter isSendLogs (snd (onNewHeads orm (deliverHeads hs b)))
                         = [SendLogs logs (last hs) bs]))"
proof -
  let ?b1 = "deliverHeads hs b"
  let ?b2 = "b\<lparr>newHeads := (newHeads b)\<lparr>queue := []\<rparr>\<rparr>"
  have d: "?b1 = b\<lparr>newHeads := (newHeads b)\<lparr>queue := [HeadItem (last hs)]\<rparr>\<rparr>"
    by (rule deliverHeads_latest [OF cap len ne])
  have q: "queue (newHeads ?b1) = [HeadItem (last hs)]"
    by (simp add: d)
  have "onNewHeads orm ?b1 = dispatch orm (last hs) (?b1\<lparr>newHeads := (newHeads ?b1)\<lparr>queue := []\<rparr>\<rparr>)"
    by (rule onNewHeads_head) (simp_all add: q)
  also have "?b1\<lparr>newHeads := (newHeads ?b1)\<lparr>queue := []\<rparr>\<rparr> = ?b2"
    by (simp add: d)
  finally have e: "onNewHeads orm ?b1 = dispatch orm (last hs) ?b2" .
  have n: "queue (newHeads (fst (onNewHeads orm ?b1))) = []"
    by (simp add: e dispatch_newHeads)
  show ?thesis
    using q e n dispatch_lastSeen [of orm "last hs" ?b2]
      dispatch_received_once [of orm "last hs" ?b2]
      dispatch_sendLogs_head [of orm "last hs" ?b2]
    by (simp only:) 
qed

theorem onNewHeads_latest_head_only_witness:
  "queue (newHeads (deliverHeads [exampleHead, exampleHead12] exampleZeroConf)) = [HeadItem exampleHead12]
   \<and> lastSeenHeadNumber
        (fst (onNewHeads ormEmpty (deliverHeads [exampleHead, exampleHead12] exampleZeroConf))) = 12"
proof -
  have cap: "capacity (newHeads exampleZeroConf) = 1" by (simp add: example_defs2)
  have len: "length (queue (newHeads exampleZeroConf)) \<le> 1" by (simp add: example_defs2)
  have ne: "[exampleHead, exampleHead12] \<noteq> []" by simp
  note t = onNewHeads_latest_head_only [OF cap len ne, of ormEmpty]
  from t have a: "queue (newHeads (deliverHeads [exampleHead, exampleHead12] exampleZeroConf))
                    = [HeadItem (last [exampleHead, exampleHead12])]" by blast
  from t have b: "lastSeenHeadNumber
        (fst (onNewHeads ormEmpty (deliverHeads [exampleHead, exampleHead12] exampleZeroConf)))
          = Number (last [exampleHead, exampleHead12])" by blast
  from a b show ?thesis by (simp add: exampleHead12_def)
qed

subsection \<open>Mailbox items of an unexpected type\<close>

lemma onAddSubscribers_handleAll:
  "onAddSubscribers b =
     (case handleAll addSubscriber ''LogBroadcaster: Subscribing listener''
             (queue (addSubscriberMb b)) (registrations b) of
        (n, r, es) \<Rightarrow>
          (n, b\<lparr>addSubscriberMb := (addSubscriberMb b)\<lparr>queue := []\<rparr>, registrations := r\<rparr>, es))"
proof (induction "queue (addSubscriberMb b)" arbitrary: b)
  case Nil
  then have q: "queue (addSubscriberMb b) = []" by simp
  have m: "(addSubscriberMb b)\<lparr>queue := []\<rparr> = addSubscriberMb b"
    using q by (cases "addSubscriberMb b") simp
  show ?case
    by (subst onAddSubscribers.simps) (simp add: Retrieve_def q m)
next
  case (Cons x xs)
  then have q: "queue (addSubscriberMb b) = x # xs" by simp
  show ?case
  proof (cases x)
    case (RegistrationItem reg)
    obtain n r where f: "addSubscriber reg (registrations b) = (n, r)" by force
    let ?b1 = "b\<lparr>addSubscriberMb := (addSubscriberMb b)\<lparr>queue := xs\<rparr>, registrations := r\<rparr>"
    have ih: "onAddSubscribers ?b1 =
       (case handleAll addSubscriber ''LogBroadcaster: Subscribing listener'' xs r of
          (n, r', es) \<Rightarrow>
            (n, ?b1\<lparr>addSubscriberMb := (addSubscriberMb ?b1)\<lparr>queue := []\<rparr>, registrations := r'\<rparr>, es))"
      using Cons.hyps(1) [of ?b1] by simp
    show ?thesis
      by (subst onAddSubscribers.simps)
         (simp add: Retrieve_def q RegistrationItem f ih split: prod.splits)
  next
    case (HeadItem h)
    let ?b1 = "b\<lparr>addSubscriberMb := (addSubscriberMb b)\<lparr>queue := xs\<rparr>\<rparr>"
    have ih: "onAddSubscribers ?b1 =
       (case handleAll addSubscriber ''LogBroadcaster: Subscribing listener'' xs (registrations b) of
          (n, r', es) \<Rightarrow>
            (n, ?b1\<lparr>addSubscriberMb := (addSubscriberMb ?b1)\<lparr>queue := []\<rparr>, registrations := r'\<rparr>, es))"
      using Cons.hyps(1) [of ?b1] by simp
    show ?thesis
      by (subst onAddSubscribers.simps)
         (simp add: Retrieve_def q HeadItem ih split: prod.splits)
  next
    case (OtherItem s)
    let ?b1 = "b\<lparr>addSubscriberMb := (addSubscriberMb b)\<lparr>queue := xs\<rparr>\<rparr>"
    have ih: "onAddSubscribers ?b1 =
       (case handleAll addSubscriber ''LogBroadcaster: Subscribing listener'' xs (registrations b) of
          (n, r', es) \<Rightarrow>
            (n, ?b1\<lparr>addSubscriberMb := (addSubscriberMb ?b1)\<lparr>queue := []\<rparr>, registrations := r'\<rparr>, es))"
      using Cons.hyps(1) [of ?b1] by simp
    show ?thesis
      by (subst onAddSubscribers.simps)
         (simp add: Retrieve_def q OtherItem ih split: prod.splits)
  qed
qed

lemma onRmSubscribers_handleAll:
  "onRmSubscribers b =
     (case handleAll removeSubscriber ''LogBroadcaster: Unsubscribing listener''
             (queue (rmSubscriberMb b)) (registrations b) of
        (n, r, es) \<Rightarrow>
          (n, b\<lparr>rmSubscriberMb := (rmSubscriberMb b)\<lparr>queue := []\<rparr>, registrations := r\<rparr>, es))"
proof (induction "queue (rmSubscriberMb b)" arbitrary: b)
  case Nil
  then have q: "queue (rmSubscriberMb b) = []" by simp
  have m: "(rmSubscriberMb b)\<lparr>queue := []\<rparr> = rmSubscriberMb b"
    using q by (cases "rmSubscriberMb b") simp
  show ?case
    by (subst onRmSubscribers.simps) (simp add: Retrieve_def q m)
next
  case (Cons x xs)
  then have q: "queue (rmSubscriberMb b) = x # xs" by simp
  show ?case
  proof (cases x)
    case (RegistrationItem reg)
    obtain n r where f: "removeSubscriber reg (registrations b) = (n, r)" by force
    let ?b1 = "b\<lparr>rmSubscriberMb := (rmSubscriberMb b)\<lparr>queue := xs\<rparr>, registrations := r\<rparr>"
    have ih: "onRmSubscribers ?b1 =
       (case handleAll removeSubscriber ''LogBroadcaster: Unsubscribing listener'' xs r of
          (n, r', es) \<Rightarrow>
            (n, ?b1\<lparr>rmSubscriberMb := (rmSubscriberMb ?b1)\<lparr>queue := []\<rparr>, registrations := r'\<rparr>, es))"
      using Cons.hyps(1) [of ?b1] by simp
    show ?thesis
      by (subst onRmSubscribers.simps)
         (simp add: Retrieve_def q RegistrationItem f ih split: prod.splits)
  next
    case (HeadItem h)
    let ?b1 = "b\<lparr>rmSubscriberMb := (rmSubscriberMb b)\<lparr>queue := xs\<rparr>\<rparr>"
    have ih: "onRmSubscribers ?b1 =
       (case handleAll removeSubscriber ''LogBroadcaster: Unsubscribing listener'' xs (registrations b) of
          (n, r', es) \<Rightarrow>
            (n, ?b1\<lparr>rmSubscriberMb := (rmSubscriberMb ?b1)\<lparr>queue := []\<rparr>, registrations := r'\<rparr>, es))"
      using Cons.hyps(1) [of ?b1] by simp
    show ?thesis
      by (subst onRmSubscribers.simps)
         (simp add: Retrieve_def q HeadItem ih split: prod.splits)
  next
    case (OtherItem s)
    let ?b1 = "b\<lparr>rmSubscriberMb := (rmSubscriberMb b)\<lparr>queue := xs\<rparr>\<rparr>"
    have ih: "onRmSubscribers ?b1 =
       (case handleAll removeSubscriber ''LogBroadcaster: Unsubscribing listener'' xs (registrations b) of
          (n, r', es) \<Rightarrow>
            (n, ?b1\<lparr>rmSubscriberMb := (rmSubscriberMb ?b1)\<lparr>queue := []\<rparr>, registrations := r'\<rparr>, es))"
      using Cons.hyps(1) [of ?b1] by simp
    show ?thesis
      by (subst onRmSubscribers.simps)
         (simp add: Retrieve_def q OtherItem ih split: prod.splits)
  qed
qed

lemma handleAll_filter:
  "handleAll f msg (filter isRegistrationItem q) r =
     (case handleAll f msg q r of
        (n, r', es) \<Rightarrow> (n, r', filter (\<lambda>e. \<not> isTypeMismatch e) es))"
proof (induction q arbitrary: r)
  case Nil
  then show ?case by simp
next
  case (Cons x q)
  then show ?case by (cases x) (simp_all split: prod.splits)
qed

lemma handleAll_mismatches:
  "length (filter isTypeMismatch (snd (snd (handleAll f msg q r))))
     = length (filter (\<lambda>x. \<not> isRegistrationItem x) q)"
proof (induction q arbitrary: r)
  case Nil
  then show ?case by simp
next
  case (Cons x q)
  then show ?case by (cases x) (simp_all add: split_beta Let_def)
qed

lemma drainNewHeads_mismatch:
  assumes "queue m \<noteq> []" "\<forall>h. last (queue m) \<noteq> HeadItem h"
  shows "drainNewHeads m latest =
           (m\<lparr>queue := []\<rparr>, latest, [LogError ''expected models.Head, got another type''])"
proof (cases "last (queue m)")
  case (HeadItem h)
  with assms show ?thesis by simp
next
  case (RegistrationItem reg)
  with assms show ?thesis
    by (subst drainNewHeads.simps) (simp add: RetrieveLatestAndClear_def drainNewHeads_empty)
next
  case (OtherItem s)
  with assms show ?thesis
    by (subst drainNewHeads.simps) (simp add: RetrieveLatestAndClear_def drainNewHeads_empty)
qed

lemma onNewHeads_mismatch:
  assumes "queue (newHeads b) \<noteq> []" "\<forall>h. last (queue (newHeads b)) \<noteq> HeadItem h"
  shows "onNewHeads orm b =
           (b\<lparr>newHeads := (newHeads b)\<lparr>queue := []\<rparr>\<rparr>,
            [LogError ''expected models.Head, got another type''])"
  using assms by (simp add: onNewHeads_def drainNewHeads_mismatch)

lemma onAddSubscribers_skips:
  "onAddSubscribers
     (b\<lparr>addSubscriberMb :=
          (addSubscriberMb b)\<lparr>queue := filter isRegistrationItem (queue (addSubscriberMb b))\<rparr>\<rparr>)
    = (fst (onAddSubscribers b), fst (snd (onAddSubscribers b)),
       filter (\<lambda>e. \<not> isTypeMismatch e) (snd (snd (onAddSubscribers b))))"
  by (simp add: onAddSubscribers_handleAll [of b]
        onAddSubscribers_handleAll [of "b\<lparr>addSubscriberMb :=
          (addSubscriberMb b)\<lparr>queue := filter isRegistrationItem (queue (addSubscriberMb b))\<rparr>\<rparr>"]
        handleAll_filter split_beta)

lemma onRmSubscribers_skips:
  "onRmSubscribers
     (b\<lparr>rmSubscriberMb :=
          (rmSubscriberMb b)\<lparr>queue := filter isRegistrationItem (queue (rmSubscriberMb b))\<rparr>\<rparr>)
    = (fst (onRmSubscribers b), fst (snd (onRmSubscribers b)),
       filter (\<lambda>e. \<not> isTypeMismatch e) (snd (snd (onRmSubscribers b))))"
  by (simp add: onRmSubscribers_handleAll [of b]
        onRmSubscribers_handleAll [of "b\<lparr>rmSubscriberMb :=
          (rmSubscriberMb b)\<lparr>queue := filter isRegistrationItem (queue (rmSubscriberMb b))\<rparr>\<rparr>"]
        handleAll_filter split_beta)

lemma onAddSubscribers_mismatches:
  "length (filter isTypeMismatch (snd (snd (onAddSubscribers b))))
     = length (filter (\<lambda>x. \<not> isRegistrationItem x) (queue (addSubscriberMb b)))
   \<and> queue (addSubscriberMb (fst (snd (onAddSubscribers b)))) = []"
  using handleAll_mismatches [of addSubscriber "''LogBroadcaster: Subscribing listener''"
          "queue (addSubscriberMb b)" "registrations b"]
  by (simp add: onAddSubscribers_handleAll [of b] split_beta)

lemma onRmSubscribers_mismatches:
  "length (filter isTypeMismatch (snd (snd (onRmSubscribers b))))
     = length (filter (\<lambda>x. \<not> isRegistrationItem x) (queue (rmSubscriberMb b)))
   \<and> queue (rmSubscriberMb (fst (snd (onRmSubscribers b)))) = []"
  using handleAll_mismatches [of removeSubscriber "''LogBroadcaster: Unsubscribing listener''"
          "queue (rmSubscriberMb b)" "registrations b"]
  by (simp add: onRmSubscribers_handleAll [of b] split_beta)

lemma onNewHeads_after_mismatch:
  assumes q: "queue (newHeads b) \<noteq> []" "\<forall>h. last (queue (newHeads b)) \<noteq> HeadItem h"
      and cap: "capacity (newHeads b) = 1"
  shows "onNewHeads orm (fst (OnNewLongestChain h (fst (onNewHeads orm b))))
           = dispatch orm h (b\<lparr>newHeads := (newHeads b)\<lparr>queue := []\<rparr>\<rparr>)"
proof -
  let ?b1 = "b\<lparr>newHeads := (newHeads b)\<lparr>queue := []\<rparr>\<rparr>"
  have a: "fst (onNewHeads orm b) = ?b1" by (simp add: onNewHeads_mismatch [OF q])
  have b: "fst (OnNewLongestChain h ?b1) = ?b1\<lparr>newHeads := (newHeads ?b1)\<lparr>queue := [HeadItem h]\<rparr>\<rparr>"
    using cap by (intro OnNewLongestChain_latest) simp_all
  let ?b2 = "?b1\<lparr>newHeads := (newHeads ?b1)\<lparr>queue := [HeadItem h]\<rparr>\<rparr>"
  have "onNewHeads orm ?b2 = dispatch orm h (?b2\<lparr>newHeads := (newHeads ?b2)\<lparr>queue := []\<rparr>\<rparr>)"
    by (rule onNewHeads_head) simp_all
  then show ?thesis by (simp add: a b)
qed

lemma handleAll_applyAll:
  "handleAll f msg q r =
     (fst (applyAll f (registrationsOf q) r), snd (applyAll f (registrationsOf q) r),
      map (\<lambda>x. if isRegistrationItem x then LogDebug msg
                else LogError ''expected registration, got another type'') q)"
proof (induction q arbitrary: r)
  case Nil
  then show ?case by simp
next
  case (Cons x q)
  then show ?case by (cases x) (simp_all add: split_beta)
qed

lemma snd_addSubscriber:
  "subscribers (snd (addSubscriber reg r)) = subscribers r @ [reg]"
  by (simp add: addSubscriber_def Let_def split_beta)

lemma snd_removeSubscriber:
  "subscribers (snd (removeSubscriber reg r)) = remove1 reg (subscribers r)"
  by (simp add: removeSubscriber_def Let_def)

lemma applyAll_addSubscriber_subscribers:
  "subscribers (snd (applyAll addSubscriber regs r)) = subscribers r @ regs"
proof (induction regs arbitrary: r)
  case Nil
  then show ?case by simp
next
  case (Cons x regs)
  then show ?case by (simp add: split_beta snd_addSubscriber)
qed

lemma applyAll_removeSubscriber_subscribers:
  "subscribers (snd (applyAll removeSubscriber regs r)) = fold remove1 regs (subscribers r)"
proof (induction regs arbitrary: r)
  case Nil
  then show ?case by simp
next
  case (Cons x regs)
  then show ?case by (simp add: split_beta snd_removeSubscriber)
qed

lemma onAddSubscribers_all:
  "onAddSubscribers b =
     (fst (applyAll addSubscriber (registrationsOf (queue (addSubscriberMb b))) (registrations b)),
      b\<lparr>addSubscriberMb := (addSubscriberMb b)\<lparr>queue := []\<rparr>,
        registrations :=
          snd (applyAll addSubscriber (registrationsOf (queue (addSubscriberMb b))) (registrations b))\<rparr>,
      map (\<lambda>x. if isRegistrationItem x then LogDebug ''LogBroadcaster: Subscribing listener''
                else LogError ''expected registration, got another type'')
          (queue (addSubscriberMb b)))"
  by (simp add: onAddSubscribers_handleAll [of b] handleAll_applyAll)

lemma onRmSubscribers_all:
  "onRmSubscribers b =
     (fst (applyAll removeSubscriber (registrationsOf (queue (rmSubscriberMb b))) (registrations b)),
      b\<lparr>rmSubscriberMb := (rmSubscriberMb b)\<lparr>queue := []\<rparr>,
        registrations :=
          snd (applyAll removeSubscriber (registrationsOf (queue (rmSubscriberMb b))) (registrations b))\<rparr>,
      map (\<lambda>x. if isRegistrationItem x then LogDebug ''LogBroadcaster: Unsubscribing listener''
                else LogError ''expected registration, got another type'')
          (queue (rmSubscriberMb b)))"
  by (simp add: onRmSubscribers_handleAll [of b] handleAll_applyAll)

lemma eventLoopRun_newHeads_mismatch:
  assumes "queue (newHeads b) \<noteq> []" "\<forall>h. last (queue (newHeads b)) \<noteq> HeadItem h"
  shows "eventLoopRun orm (NewHeadsCase # cs) nr b =
           (fst (eventLoopRun orm cs nr (b\<lparr>newHeads := (newHeads b)\<lparr>queue := []\<rparr>\<rparr>)),
            fst (snd (eventLoopRun orm cs nr (b\<lparr>newHeads := (newHeads b)\<lparr>queue := []\<rparr>\<rparr>))),
            LogError ''expected models.Head, got another type''
              # snd (snd (eventLoopRun orm cs nr (b\<lparr>newHeads := (newHeads b)\<lparr>queue := []\<rparr>\<rparr>))))"
  by (simp add: onNewHeads_mismatch [OF assms] split_beta)


text \<open>
  Claim C9. The handlers are total: an item of an unexpected type is a branch that logs
  the type-mismatch error and goes on with the loop. \<open>onAddSubscribers\<close> empties its
  mailbox, passes every registration of the mailbox to \<open>addSubscriber\<close>, in the order of
  the queue and whatever items of another type stand before or between them, and logs one
  line for each item: the debug line for a registration, the error for any other item.
  So the subscribers afterwards are those before followed by all the registrations of the
  mailbox, and the result is what the handler returns on the same mailbox without the
  mismatched items, apart from the error lines. \<open>onRmSubscribers\<close> does the same with
  \<open>removeSubscriber\<close>. \<open>onNewHeads\<close>, when the item it retrieves is not a head, logs the
  error, clears the mailbox and dispatches nothing; the event loop goes on with the next
  \<open>select\<close>, and a head delivered afterwards is dispatched as usual.
\<close>

theorem handlers_skip_mismatched_items:
  "onAddSubscribers b =
     (fst (applyAll addSubscriber (registrationsOf (queue (addSubscriberMb b))) (registrations b)),
      b\<lparr>addSubscriberMb := (addSubscriberMb b)\<lparr>queue := []\<rparr>,
        registrations :=
          snd (applyAll addSubscriber (registrationsOf (queue (addSubscriberMb b))) (registrations b))\<rparr>,
      map (\<lambda>x. if isRegistrationItem x then LogDebug ''LogBroadcaster: Subscribing listener''
                else LogError ''expected registration, got another type'')
          (queue (addSubscriberMb b)))
   \<and> subscribers (registrations (fst (snd (onAddSubscribers b))))
        = subscribers (registrations b) @ registrationsOf (queue (addSubscriberMb b))
   \<and> onAddSubscribers
        (b\<lparr>addSubscriberMb :=
             (addSubscriberMb b)\<lparr>queue := filter isRegistrationItem (queue (addSubscriberMb b))\<rparr>\<rparr>)
       = (fst (onAddSubscribers b), fst (snd (onAddSubscribers b)),
          filter (\<lambda>e. \<not> isTypeMismatch e) (snd (snd (onAddSubscribers b))))
   \<and> length (filter isTypeMismatch (snd (snd (onAddSubscribers b))))
        = length (filter (\<lambda>x. \<not> isRegistrationItem x) (queue (addSubscriberMb b)))
   \<and> queue (addSubscriberMb (fst (snd (onAddSubscribers b)))) = []
   \<and> onRmSubscribers b =
        (fst (applyAll removeSubscriber (registrationsOf (queue (rmSubscriberMb b))) (registrations b)),
         b\<lparr>rmSubscriberMb := (rmSubscriberMb b)\<lparr>queue := []\<rparr>,
           registrations :=
             snd (applyAll removeSubscriber (registrationsOf (queue (rmSubscriberMb b))) (registrations b))\<rparr>,
         map (\<lambda>x. if isRegistrationItem x then LogDebug ''LogBroadcaster: Unsubscribing listener''
                   else LogError ''expected registration, got another type'')
             (queue (rmSubscriberMb b)))
   \<and> subscribers (registrations (fst (snd (onRmSubscribers b))))
        = fold remove1 (registrationsOf (queue (rmSubscriberMb b))) (subscribers (registrations b))
   \<and> onRmSubscribers
        (b\<lparr>rmSubscriberMb :=
             (rmSubscriberMb b)\<lparr>queue := filter isRegistrationItem (queue (rmSubscriberMb b))\<rparr>\<rparr>)
       = (fst (onRmSubscribers b), fst (snd (onRmSubscribers b)),
          filter (\<lambda>e. \<not> isTypeMismatch e) (snd (snd (onRmSubscribers b))))
   \<and> length (filter isTypeMismatch (snd (snd (onRmSubscribers b))))
        = length (filter (\<lambda>x. \<not> isRegistrationItem x) (queue (rmSubscriberMb b)))
   \<and> queue (rmSubscriberMb (fst (snd (onRmSubscribers b)))) = []
   \<and> (queue (newHeads b) \<noteq> [] \<and> (\<forall>h. last (queue (newHeads b)) \<noteq> HeadItem h) \<longrightarrow>
          onNewHeads orm b =
            (b\<lparr>newHeads := (newHeads b)\<lparr>queue := []\<rparr>\<rparr>,
             [LogError ''expected models.Head, got another type''])
        \<and> eventLoopRun orm (NewHeadsCase # cs) needsResubscribe b =
            (fst (eventLoopRun orm cs needsResubscribe (b\<lparr>newHeads := (newHeads b)\<lparr>queue := []\<rparr>\<rparr>)),
             fst (snd (eventLoopRun orm cs needsResubscribe (b\<lparr>newHeads := (newHeads b)\<lparr>queue := []\<rparr>\<rparr>))),
             LogError ''expected models.Head, got another type''
               # snd (snd (eventLoopRun orm cs needsResubscribe
                             (b\<lparr>newHeads := (newHeads b)\<lparr>queue := []\<rparr>\<rparr>))))
        \<and> (capacity (newHeads b) = 1 \<longrightarrow>
             onNewHeads orm (fst (OnNewLongestChain h (fst (onNewHeads orm b))))
               = dispatch orm h (b\<lparr>newHeads := (newHeads b)\<lparr>queue := []\<rparr>\<rparr>)))"
proof -
  have a1: "subscribers (registrations (fst (snd (onAddSubscribers b))))
        = subscribers (registrations b) @ registrationsOf (queue (addSubscriberMb b))"
    by (simp add: onAddSubscribers_all [of b] applyAll_addSubscriber_subscribers)
  have r1: "subscribers (registrations (fst (snd (onRmSubscribers b))))
        = fold remove1 (registrationsOf (queue (rmSubscriberMb b))) (subscribers (registrations b))"
    by (simp add: onRmSubscribers_all [of b] applyAll_removeSubscriber_subscribers)
  show ?thesis
    using onAddSubscribers_all [of b] a1 onAddSubscribers_skips [of b] onAddSubscribers_mismatches [of b]
          onRmSubscribers_all [of b] r1 onRmSubscribers_skips [of b] onRmSubscribers_mismatches [of b]
          onNewHeads_mismatch [of b orm] onNewHeads_after_mismatch [of b orm h]
          eventLoopRun_newHeads_mismatch [of b orm cs needsResubscribe]
    by blast
qed

theorem handlers_skip_mismatched_items_witness:
  "subscribers (registrations exampleMalformed) = [exampleRegistration]
   \<and> queue (addSubscriberMb exampleMalformed)
        = [OtherItem ''x'', RegistrationItem exampleRegistration]
   \<and> subscribers (registrations (fst (snd (onAddSubscribers exampleMalformed))))
        = [exampleRegistration, exampleRegistration]
   \<and> snd (snd (onAddSubscribers exampleMalformed))
        = [LogError ''expected registration, got another type'',
           LogDebug ''LogBroadcaster: Subscribing listener'']
   \<and> queue (rmSubscriberMb exampleMalformed)
        = [HeadItem exampleHead, RegistrationItem exampleRegistration]
   \<and> subscribers (registrations (fst (snd (onRmSubscribers exampleMalformed)))) = []
   \<and> snd (snd (onRmSubscribers exampleMalformed))
        = [LogError ''expected registration, got another type'',
           LogDebug ''LogBroadcaster: Unsubscribing listener'']
   \<and> length (filter isTypeMismatch (snd (snd (onAddSubscribers exampleMalformed)))) = 1
   \<and> length (filter isTypeMismatch (snd (snd (onRmSubscribers exampleMalformed)))) = 1
   \<and> onNewHeads ormEmpty exampleMalformed =
        (exampleMalformed\<lparr>newHeads := \<lparr>queue = [], capacity = 1\<rparr>\<rparr>,
         [LogError ''expected models.Head, got another type''])
   \<and> eventLoopRun ormEmpty [NewHeadsCase, StopCase] False exampleMalformed =
        (Some (False, None), exampleMalformed\<lparr>newHeads := \<lparr>queue = [], capacity = 1\<rparr>\<rparr>,
         [LogError ''expected models.Head, got another type''])
   \<and> lastSeenHeadNumber
        (fst (onNewHeads ormEmpty
               (fst (OnNewLongestChain exampleHead12 (fst (onNewHeads ormEmpty exampleMalformed))))))
        = 12"
proof -
  note t = handlers_skip_mismatched_items
             [where b = exampleMalformed and orm = ormEmpty and h = exampleHead12
                and cs = "[StopCase]" and needsResubscribe = False]
  have q: "queue (newHeads exampleMalformed) \<noteq> []
           \<and> (\<forall>h. last (queue (newHeads exampleMalformed)) \<noteq> HeadItem h)"
    by (simp add: exampleMalformed_def)
  have cap: "capacity (newHeads exampleMalformed) = 1" by (simp add: exampleMalformed_def)
  have s0: "subscribers (registrations exampleMalformed) = [exampleRegistration]"
    by (simp add: exampleMalformed_def example_defs)
  have qa: "queue (addSubscriberMb exampleMalformed)
              = [OtherItem ''x'', RegistrationItem exampleRegistration]"
    by (simp add: exampleMalformed_def)
  have qr: "queue (rmSubscriberMb exampleMalformed)
              = [HeadItem exampleHead, RegistrationItem exampleRegistration]"
    by (simp add: exampleMalformed_def)
  from t have sa: "subscribers (registrations (fst (snd (onAddSubscribers exampleMalformed))))
        = subscribers (registrations exampleMalformed)
            @ registrationsOf (queue (addSubscriberMb exampleMalformed))"
    by blast
  from t have ea: "snd (snd (onAddSubscribers exampleMalformed))
        = map (\<lambda>x. if isRegistrationItem x then LogDebug ''LogBroadcaster: Subscribing listener''
                else LogError ''expected registration, got another type'')
          (queue (addSubscriberMb exampleMalformed))"
    by simp
  from t have sr: "subscribers (registrations (fst (snd (onRmSubscribers exampleMalformed))))
        = fold remove1 (registrationsOf (queue (rmSubscriberMb exampleMalformed)))
            (subscribers (registrations exampleMalformed))"
    by blast
  from t have er: "snd (snd (onRmSubscribers exampleMalformed))
        = map (\<lambda>x. if isRegistrationItem x then LogDebug ''LogBroadcaster: Unsubscribing listener''
                else LogError ''expected registration, got another type'')
          (queue (rmSubscriberMb exampleMalformed))"
    by simp
  from t have a: "length (filter isTypeMismatch (snd (snd (onAddSubscribers exampleMalformed))))
        = length (filter (\<lambda>x. \<not> isRegistrationItem x) (queue (addSubscriberMb exampleMalformed)))"
    by blast
  from t have b: "length (filter isTypeMismatch (snd (snd (onRmSubscribers exampleMalformed))))
        = length (filter (\<lambda>x. \<not> isRegistrationItem x) (queue (rmSubscriberMb exampleMalformed)))"
    by blast
  from t q have c: "onNewHeads ormEmpty exampleMalformed =
            (exampleMalformed\<lparr>newHeads := (newHeads exampleMalformed)\<lparr>queue := []\<rparr>\<rparr>,
             [LogError ''expected models.Head, got another type''])"
    by blast
  from t q have e: "eventLoopRun ormEmpty (NewHeadsCase # [StopCase]) False exampleMalformed =
            (fst (eventLoopRun ormEmpty [StopCase] False
                    (exampleMalformed\<lparr>newHeads := (newHeads exampleMalformed)\<lparr>queue := []\<rparr>\<rparr>)),
             fst (snd (eventLoopRun ormEmpty [StopCase] False
                    (exampleMalformed\<lparr>newHeads := (newHeads exampleMalformed)\<lparr>queue := []\<rparr>\<rparr>))),
             LogError ''expected models.Head, got another type''
               # snd (snd (eventLoopRun ormEmpty [StopCase] False
                    (exampleMalformed\<lparr>newHeads := (newHeads exampleMalformed)\<lparr>queue := []\<rparr>\<rparr>))))"
    by blast
  from t q cap have d: "onNewHeads ormEmpty
         (fst (OnNewLongestChain exampleHead12 (fst (onNewHeads ormEmpty exampleMalformed))))
       = dispatch ormEmpty exampleHead12
           (exampleMalformed\<lparr>newHeads := (newHeads exampleMalformed)\<lparr>queue := []\<rparr>\<rparr>)"
    by blast
  have c': "exampleMalformed\<lparr>newHeads := (newHeads exampleMalformed)\<lparr>queue := []\<rparr>\<rparr>
              = exampleMalformed\<lparr>newHeads := \<lparr>queue = [], capacity = 1\<rparr>\<rparr>"
    by (simp add: exampleMalformed_def)
  have d': "lastSeenHeadNumber (fst (dispatch ormEmpty exampleHead12
           (exampleMalformed\<lparr>newHeads := (newHeads exampleMalformed)\<lparr>queue := []\<rparr>\<rparr>))) = 12"
    by (simp add: dispatch_lastSeen exampleHead12_def)
  have sa': "subscribers (registrations (fst (snd (onAddSubscribers exampleMalformed))))
        = [exampleRegistration, exampleRegistration]"
    by (simp add: sa s0 qa)
  have sr': "subscribers (registrations (fst (snd (onRmSubscribers exampleMalformed)))) = []"
    by (simp add: sr s0 qr)
  have ea': "snd (snd (onAddSubscribers exampleMalformed))
        = [LogError ''expected registration, got another type'',
           LogDebug ''LogBroadcaster: Subscribing listener'']"
    by (simp add: ea qa)
  have er': "snd (snd (onRmSubscribers exampleMalformed))
        = [LogError ''expected registration, got another type'',
           LogDebug ''LogBroadcaster: Unsubscribing listener'']"
    by (simp add: er qr)
  have a': "length (filter isTypeMismatch (snd (snd (onAddSubscribers exampleMalformed)))) = 1"
    by (simp add: a qa)
  have b': "length (filter isTypeMismatch (snd (snd (onRmSubscribers exampleMalformed)))) = 1"
    by (simp add: b qr)
  have e': "eventLoopRun ormEmpty [NewHeadsCase, StopCase] False exampleMalformed =
        (Some (False, None), exampleMalformed\<lparr>newHeads := \<lparr>queue = [], capacity = 1\<rparr>\<rparr>,
         [LogError ''expected models.Head, got another type''])"
    by (simp only: e c') simp
  from s0 qa sa' ea' qr sr' er' a' b' c c' d d' e' show ?thesis by (simp only:)
qed

subsection \<open>Replay\<close>

lemma ReplayFromBlock_state:
  "fst (ReplayFromBlock n b) = (if replayChannel b = [] then b\<lparr>replayChannel := [n]\<rparr> else b)"
  by (simp add: ReplayFromBlock_def replayChannelCap_def)

lemma ReplayFromBlock_pending:
  "replayChannel b \<noteq> [] \<Longrightarrow> fold (\<lambda>n b. fst (ReplayFromBlock n b)) ns b = b"
  by (induction ns) (simp_all add: ReplayFromBlock_state)

lemma ReplayFromBlock_first_wins:
  assumes "replayChannel b = []"
  shows "fold (\<lambda>n b. fst (ReplayFromBlock n b)) (n # ns) b = b\<lparr>replayChannel := [n]\<rparr>"
proof -
  have "fold (\<lambda>n b. fst (ReplayFromBlock n b)) (n # ns) b
          = fold (\<lambda>n b. fst (ReplayFromBlock n b)) ns (b\<lparr>replayChannel := [n]\<rparr>)"
    using assms by (simp add: ReplayFromBlock_state)
  also have "\<dots> = b\<lparr>replayChannel := [n]\<rparr>"
    by (rule ReplayFromBlock_pending) simp
  finally show ?thesis .
qed

lemma dispatch_highestSavedHead: "highestSavedHead (fst (dispatch orm h b)) = highestSavedHead b"
proof (cases "highestNumConfirmations (registrations b) = 0")
  case True
  show ?thesis by (simp add: dispatch_zero [OF True] Let_def split: sum.splits)
next
  case False
  show ?thesis by (simp add: dispatch_nonzero [OF False] Let_def split: sum.splits)
qed

lemma onNewLog_highestSavedHead: "highestSavedHead (fst (onNewLog l b)) = highestSavedHead b"
  by (simp add: onNewLog_def Let_def)

lemma onNewHeads_highestSavedHead: "highestSavedHead (fst (onNewHeads orm b)) = highestSavedHead b"
  by (simp add: onNewHeads_def Let_def split_beta dispatch_highestSavedHead split: option.splits)

lemma onAddSubscribers_highestSavedHead:
  "highestSavedHead (fst (snd (onAddSubscribers b))) = highestSavedHead b"
  by (simp add: onAddSubscribers_handleAll [of b] split_beta)

lemma onRmSubscribers_highestSavedHead:
  "highestSavedHead (fst (snd (onRmSubscribers b))) = highestSavedHead b"
  by (simp add: onRmSubscribers_handleAll [of b] split_beta)

lemma eventLoopRun_highestSavedHead:
  "highestSavedHead (fst (snd (eventLoopRun orm cs nr b))) = highestSavedHead b"
proof (induction cs arbitrary: nr b)
  case Nil
  then show ?case by simp
next
  case (Cons c cs)
  show ?case
  proof (cases c)
    case (RawLogCase l)
    then show ?thesis by (simp add: split_beta Cons.IH onNewLog_highestSavedHead)
  next
    case NewHeadsCase
    then show ?thesis by (simp add: split_beta Cons.IH onNewHeads_highestSavedHead)
  next
    case (ErrCase e)
    then show ?thesis by simp
  next
    case AddSubscriberCase
    then show ?thesis by (simp add: split_beta Cons.IH onAddSubscribers_highestSavedHead)
  next
    case RmSubscriberCase
    then show ?thesis by (simp add: split_beta Cons.IH onRmSubscribers_highestSavedHead)
  next
    case ReplayCase
    then show ?thesis by (simp add: Cons.IH split: list.splits)
  next
    case DebounceCase
    then show ?thesis by (simp add: Cons.IH)
  next
    case StopCase
    then show ?thesis by simp
  qed
qed

lemma eventLoopRun_replay:
  assumes "fst (eventLoopRun orm pre nr b) = None"
      and "replayChannel (fst (snd (eventLoopRun orm pre nr b))) = n # rest"
  shows "eventLoopRun orm (pre @ ReplayCase # post) nr b =
           (Some (True, None),
            (fst (snd (eventLoopRun orm pre nr b)))
              \<lparr>replayChannel := rest, backfillBlockNumber := \<lparr>Int64 = n, Valid = True\<rparr>\<rparr>,
            snd (snd (eventLoopRun orm pre nr b))
              @ [LogDebug ''LogBroadcaster: Returning from the event loop to replay logs from specific block number''])"
  using assms
proof (induction pre arbitrary: nr b)
  case Nil
  then show ?case by simp
next
  case (Cons c pre)
  show ?case
  proof (cases c)
    case (RawLogCase l)
    with Cons.prems show ?thesis by (simp add: split_beta Cons.IH)
  next
    case NewHeadsCase
    with Cons.prems show ?thesis by (simp add: split_beta Cons.IH)
  next
    case (ErrCase e)
    with Cons.prems show ?thesis by simp
  next
    case AddSubscriberCase
    with Cons.prems show ?thesis by (simp add: split_beta Cons.IH)
  next
    case RmSubscriberCase
    with Cons.prems show ?thesis by (simp add: split_beta Cons.IH)
  next
    case ReplayCase
    with Cons.prems show ?thesis by (cases "replayChannel b") (simp_all add: Cons.IH)
  next
    case DebounceCase
    with Cons.prems show ?thesis by (cases nr) (simp_all add: Cons.IH)
  next
    case StopCase
    with Cons.prems show ?thesis by simp
  qed
qed

lemma resubscribePass_clears_saved_head:
  "highestSavedHead (fst (snd (resubscribePass False backfillAbort b))) = None"
  by (simp add: resubscribePass_def backfillStart_def Let_def split_beta split: option.splits)

lemma resubscribePass_replay:
  assumes "highestSavedHead b = None" "backfillBlockNumber b = \<lparr>Int64 = n, Valid = True\<rparr>"
  shows "snd (snd (resubscribePass False backfillAbort b)) =
           [LogDebug ''LogBroadcaster: Resubscribing and backfilling logs...'',
            CreateSubscription (fst (addressesAndTopics (registrations b)))
                               (snd (addressesAndTopics (registrations b))),
            LogDebug ''LogBroadcaster: Using an override as a start of the backfill'',
            BackfillLogs \<lparr>Int64 = n, Valid = True\<rparr>
                         (fst (addressesAndTopics (registrations b)))
                         (snd (addressesAndTopics (registrations b)))]"
  using assms by (simp add: resubscribePass_def backfillStart_def Let_def split_beta)


lemma resubscribePass_replayChannel:
  "replayChannel (fst (snd (resubscribePass createAbort backfillAbort b))) = replayChannel b"
  by (simp add: resubscribePass_def backfillStart_def Let_def split_beta split: option.splits)

lemma resubscribePass_registrations:
  "registrations (fst (snd (resubscribePass createAbort backfillAbort b))) = registrations b"
  by (simp add: resubscribePass_def backfillStart_def Let_def split_beta split: option.splits)

lemma resubscribePass_not_aborted: "fst (resubscribePass False False b) = False"
  by (simp add: resubscribePass_def Let_def split_beta)

lemma startResubscribeLoop_first_pass:
  "\<exists>es. snd (snd (startResubscribeLoop orm ((createAbort, backfillAbort, cs) # passes) b))
          = snd (snd (resubscribePass createAbort backfillAbort b)) @ es"
  by (simp add: split_beta Let_def split: option.splits)

lemma startResubscribeLoop_resubscribes:
  assumes "fst (eventLoop orm cs b1) = Some (True, None)"
      and "b1 = fst (snd (resubscribePass False False b))"
  shows "startResubscribeLoop orm ((False, False, cs) # passes) b =
           (fst (startResubscribeLoop orm passes (fst (snd (eventLoop orm cs b1)))),
            fst (snd (startResubscribeLoop orm passes (fst (snd (eventLoop orm cs b1))))),
            snd (snd (resubscribePass False False b)) @ snd (snd (eventLoop orm cs b1))
              @ snd (snd (startResubscribeLoop orm passes (fst (snd (eventLoop orm cs b1))))))"
  using assms by (simp add: split_beta Let_def resubscribePass_not_aborted)

lemma startResubscribeLoop_replay:
  assumes p: "fst (eventLoopRun orm pre False (fst (snd (resubscribePass False False b)))) = None"
      and q: "replayChannel (fst (snd (eventLoopRun orm pre False
                 (fst (snd (resubscribePass False False b)))))) = n # rest"
  shows "\<exists>es. snd (snd (startResubscribeLoop orm
                 ((False, False, pre @ ReplayCase # cs) # (False, backfillAbort, cs') # passes) b)) =
           snd (snd (resubscribePass False False b))
           @ snd (snd (eventLoop orm (pre @ ReplayCase # cs) (fst (snd (resubscribePass False False b)))))
           @ [LogDebug ''LogBroadcaster: Resubscribing and backfilling logs...'',
              CreateSubscription
                (fst (addressesAndTopics (registrations (fst (snd (eventLoopRun orm pre False
                   (fst (snd (resubscribePass False False b))))))))) 
                (snd (addressesAndTopics (registrations (fst (snd (eventLoopRun orm pre False
                   (fst (snd (resubscribePass False False b))))))))),
              LogDebug ''LogBroadcaster: Using an override as a start of the backfill'',
              BackfillLogs \<lparr>Int64 = n, Valid = True\<rparr>
                (fst (addressesAndTopics (registrations (fst (snd (eventLoopRun orm pre False
                   (fst (snd (resubscribePass False False b)))))))))
                (snd (addressesAndTopics (registrations (fst (snd (eventLoopRun orm pre False
                   (fst (snd (resubscribePass False False b)))))))))]
           @ es"
proof -
  let ?b1 = "fst (snd (resubscribePass False False b))"
  let ?b2 = "fst (snd (eventLoopRun orm pre False ?b1))"
  let ?cs = "pre @ ReplayCase # cs"
  let ?b3 = "fst (snd (eventLoop orm ?cs ?b1))"
  have run: "eventLoopRun orm ?cs False ?b1 =
           (Some (True, None),
            ?b2\<lparr>replayChannel := rest, backfillBlockNumber := \<lparr>Int64 = n, Valid = True\<rparr>\<rparr>,
            snd (snd (eventLoopRun orm pre False ?b1))
              @ [LogDebug ''LogBroadcaster: Returning from the event loop to replay logs from specific block number''])"
    by (rule eventLoopRun_replay [OF p q])
  have r: "fst (eventLoop orm ?cs ?b1) = Some (True, None)"
    by (simp add: eventLoop_def run)
  have b3: "?b3 = ?b2\<lparr>replayChannel := rest, backfillBlockNumber := \<lparr>Int64 = n, Valid = True\<rparr>\<rparr>"
    by (simp add: eventLoop_def run)
  have h1: "highestSavedHead ?b1 = None" by (rule resubscribePass_clears_saved_head)
  have h3: "highestSavedHead ?b3 = None"
    by (simp add: b3 eventLoopRun_highestSavedHead h1)
  have v3: "backfillBlockNumber ?b3 = \<lparr>Int64 = n, Valid = True\<rparr>" by (simp add: b3)
  have g3: "registrations ?b3 = registrations ?b2" by (simp add: b3)
  note second = resubscribePass_replay [OF h3 v3, of backfillAbort]
  obtain es where es: "snd (snd (startResubscribeLoop orm ((False, backfillAbort, cs') # passes) ?b3))
          = snd (snd (resubscribePass False backfillAbort ?b3)) @ es"
    using startResubscribeLoop_first_pass by blast
  have "snd (snd (startResubscribeLoop orm
                 ((False, False, ?cs) # (False, backfillAbort, cs') # passes) b)) =
          snd (snd (resubscribePass False False b)) @ snd (snd (eventLoop orm ?cs ?b1))
            @ snd (snd (startResubscribeLoop orm ((False, backfillAbort, cs') # passes) ?b3))"
    by (simp only: startResubscribeLoop_resubscribes [OF r refl] snd_conv)
  then show ?thesis
    by (simp only: es second g3 append_assoc) blast
qed

text \<open>
  Claim C2, as stated, fails: a second request does not overwrite a pending one. After
  \<open>ReplayFromBlock(5)\<close> and then \<open>ReplayFromBlock(7)\<close> the channel holds 5, and the event
  loop seeds the backfill with 5, not with the newer 7.
\<close>

theorem ReplayFromBlock_newest_is_dropped:
  "replayChannel (fst (ReplayFromBlock 7 (fst (ReplayFromBlock 5 exampleRestart)))) = [5]
   \<and> replayChannel (fst (ReplayFromBlock 7 (fst (ReplayFromBlock 5 exampleRestart)))) \<noteq> [7]
   \<and> backfillBlockNumber (fst (snd (eventLoop ormEmpty [ReplayCase]
        (fst (ReplayFromBlock 7 (fst (ReplayFromBlock 5 exampleRestart)))))))
      = \<lparr>Int64 = 5, Valid = True\<rparr>"
  by (simp add: ReplayFromBlock_def replayChannelCap_def eventLoop_def example_defs)

text \<open>
  Claim C2, amended. \<open>ReplayFromBlock(n)\<close> never blocks: it stores \<open>n\<close> in the replay
  channel when the channel is empty and changes nothing when a request is pending, so of
  several requests that arrive before the event loop takes one, the oldest is kept and
  the newer ones are dropped. When the event loop receives \<open>n\<close> from the channel, at
  its first \<open>select\<close> or after any number of others, it sets the backfill block number
  to \<open>n\<close> and returns \<open>(true, nil)\<close>. On that result \<open>startResubscribeLoop\<close> goes
  on to its next pass, which calls \<open>backfillLogs\<close> with \<open>n\<close>: no saved head is left to
  override it, since the pass that precedes every event loop has cleared the saved head,
  and neither the event loop nor \<open>ReplayFromBlock\<close> sets it. This is stated for a pass
  run in a state without a saved head, and for the loop itself from any state: a pass,
  an event loop that receives \<open>n\<close>, and the next pass.
\<close>

theorem ReplayFromBlock_keeps_pending_request:
  "fst (ReplayFromBlock n b) = (if replayChannel b = [] then b\<lparr>replayChannel := [n]\<rparr> else b)
   \<and> (replayChannel b = [] \<longrightarrow>
        fold (\<lambda>n b. fst (ReplayFromBlock n b)) (n # ns) b = b\<lparr>replayChannel := [n]\<rparr>)
   \<and> (replayChannel b = n # rest \<longrightarrow>
        eventLoopRun orm (ReplayCase # cs) needsResubscribe b =
          (Some (True, None),
           b\<lparr>replayChannel := rest, backfillBlockNumber := \<lparr>Int64 = n, Valid = True\<rparr>\<rparr>,
           [LogDebug ''LogBroadcaster: Returning from the event loop to replay logs from specific block number'']))
   \<and> (fst (eventLoopRun orm pre needsResubscribe b) = None
        \<and> replayChannel (fst (snd (eventLoopRun orm pre needsResubscribe b))) = n # rest \<longrightarrow>
        eventLoopRun orm (pre @ ReplayCase # cs) needsResubscribe b =
          (Some (True, None),
           (fst (snd (eventLoopRun orm pre needsResubscribe b)))
             \<lparr>replayChannel := rest, backfillBlockNumber := \<lparr>Int64 = n, Valid = True\<rparr>\<rparr>,
           snd (snd (eventLoopRun orm pre needsResubscribe b))
             @ [LogDebug ''LogBroadcaster: Returning from the event loop to replay logs from specific block number'']))
   \<and> (highestSavedHead b = None
        \<and> fst (eventLoopRun orm pre needsResubscribe b) = None
        \<and> replayChannel (fst (snd (eventLoopRun orm pre needsResubscribe b))) = n # rest \<longrightarrow>
        (let b' = fst (snd (eventLoopRun orm (pre @ ReplayCase # cs) needsResubscribe b));
             addresses = fst (addressesAndTopics (registrations b'));
             topics = snd (addressesAndTopics (registrations b'))
         in snd (snd (resubscribePass False backfillAbort b')) =
              [LogDebug ''LogBroadcaster: Resubscribing and backfilling logs...'',
               CreateSubscription addresses topics,
               LogDebug ''LogBroadcaster: Using an override as a start of the backfill'',
               BackfillLogs \<lparr>Int64 = n, Valid = True\<rparr> addresses topics]))
   \<and> (let b1 = fst (snd (resubscribePass False False b));
            b2 = fst (snd (eventLoopRun orm pre False b1));
            addresses = fst (addressesAndTopics (registrations b2));
            topics = snd (addressesAndTopics (registrations b2))
        in fst (eventLoopRun orm pre False b1) = None \<and> replayChannel b2 = n # rest \<longrightarrow>
           (\<exists>es. snd (snd (startResubscribeLoop orm
                     ((False, False, pre @ ReplayCase # cs) # (False, backfillAbort, cs') # passes) b)) =
                  snd (snd (resubscribePass False False b))
                  @ snd (snd (eventLoop orm (pre @ ReplayCase # cs) b1))
                  @ [LogDebug ''LogBroadcaster: Resubscribing and backfilling logs...'',
                     CreateSubscription addresses topics,
                     LogDebug ''LogBroadcaster: Using an override as a start of the backfill'',
                     BackfillLogs \<lparr>Int64 = n, Valid = True\<rparr> addresses topics]
                  @ es))
   \<and> highestSavedHead (fst (snd (resubscribePass False backfillAbort b))) = None
   \<and> highestSavedHead (fst (snd (eventLoopRun orm cs needsResubscribe b))) = highestSavedHead b
   \<and> highestSavedHead (fst (ReplayFromBlock n b)) = highestSavedHead b"
proof (intro conjI impI)
  show "fst (ReplayFromBlock n b) = (if replayChannel b = [] then b\<lparr>replayChannel := [n]\<rparr> else b)"
    by (rule ReplayFromBlock_state)
next
  assume "replayChannel b = []"
  then show "fold (\<lambda>n b. fst (ReplayFromBlock n b)) (n # ns) b = b\<lparr>replayChannel := [n]\<rparr>"
    by (rule ReplayFromBlock_first_wins)
next
  assume "replayChannel b = n # rest"
  then show "eventLoopRun orm (ReplayCase # cs) needsResubscribe b =
          (Some (True, None),
           b\<lparr>replayChannel := rest, backfillBlockNumber := \<lparr>Int64 = n, Valid = True\<rparr>\<rparr>,
           [LogDebug ''LogBroadcaster: Returning from the event loop to replay logs from specific block number''])"
    by simp
next
  assume "fst (eventLoopRun orm pre needsResubscribe b) = None
        \<and> replayChannel (fst (snd (eventLoopRun orm pre needsResubscribe b))) = n # rest"
  then show "eventLoopRun orm (pre @ ReplayCase # cs) needsResubscribe b =
          (Some (True, None),
           (fst (snd (eventLoopRun orm pre needsResubscribe b)))
             \<lparr>replayChannel := rest, backfillBlockNumber := \<lparr>Int64 = n, Valid = True\<rparr>\<rparr>,
           snd (snd (eventLoopRun orm pre needsResubscribe b))
             @ [LogDebug ''LogBroadcaster: Returning from the event loop to replay logs from specific block number''])"
    by (simp add: eventLoopRun_replay)
next
  assume a: "highestSavedHead b = None
        \<and> fst (eventLoopRun orm pre needsResubscribe b) = None
        \<and> replayChannel (fst (snd (eventLoopRun orm pre needsResubscribe b))) = n # rest"
  let ?b1 = "fst (snd (eventLoopRun orm pre needsResubscribe b))"
  let ?b' = "fst (snd (eventLoopRun orm (pre @ ReplayCase # cs) needsResubscribe b))"
  from a have e: "?b' = ?b1\<lparr>replayChannel := rest, backfillBlockNumber := \<lparr>Int64 = n, Valid = True\<rparr>\<rparr>"
    by (simp add: eventLoopRun_replay)
  have h: "highestSavedHead ?b' = None"
    using a by (simp add: eventLoopRun_highestSavedHead)
  have v: "backfillBlockNumber ?b' = \<lparr>Int64 = n, Valid = True\<rparr>"
    by (simp add: e)
  show "(let b' = ?b';
             addresses = fst (addressesAndTopics (registrations b'));
             topics = snd (addressesAndTopics (registrations b'))
         in snd (snd (resubscribePass False backfillAbort b')) =
              [LogDebug ''LogBroadcaster: Resubscribing and backfilling logs...'',
               CreateSubscription addresses topics,
               LogDebug ''LogBroadcaster: Using an override as a start of the backfill'',
               BackfillLogs \<lparr>Int64 = n, Valid = True\<rparr> addresses topics])"
    unfolding Let_def by (rule resubscribePass_replay [OF h v])
next
  show "(let b1 = fst (snd (resubscribePass False False b));
            b2 = fst (snd (eventLoopRun orm pre False b1));
            addresses = fst (addressesAndTopics (registrations b2));
            topics = snd (addressesAndTopics (registrations b2))
        in fst (eventLoopRun orm pre False b1) = None \<and> replayChannel b2 = n # rest \<longrightarrow>
           (\<exists>es. snd (snd (startResubscribeLoop orm
                     ((False, False, pre @ ReplayCase # cs) # (False, backfillAbort, cs') # passes) b)) =
                  snd (snd (resubscribePass False False b))
                  @ snd (snd (eventLoop orm (pre @ ReplayCase # cs) b1))
                  @ [LogDebug ''LogBroadcaster: Resubscribing and backfilling logs...'',
                     CreateSubscription addresses topics,
                     LogDebug ''LogBroadcaster: Using an override as a start of the backfill'',
                     BackfillLogs \<lparr>Int64 = n, Valid = True\<rparr> addresses topics]
                  @ es))"
    unfolding Let_def using startResubscribeLoop_replay [of orm pre b n rest cs backfillAbort cs' passes]
    by blast
next
  show "highestSavedHead (fst (snd (resubscribePass False backfillAbort b))) = None"
    by (rule resubscribePass_clears_saved_head)
  show "highestSavedHead (fst (snd (eventLoopRun orm cs needsResubscribe b))) = highestSavedHead b"
    by (rule eventLoopRun_highestSavedHead)
  show "highestSavedHead (fst (ReplayFromBlock n b)) = highestSavedHead b"
    by (simp add: ReplayFromBlock_state)
qed

theorem ReplayFromBlock_keeps_pending_request_witness:
  "highestSavedHead exampleRestart = Some exampleHead
   \<and> highestSavedHead (fst (snd (resubscribePass False False exampleRestart))) = None
   \<and> fold (\<lambda>n b. fst (ReplayFromBlock n b)) [5, 7]
        (fst (snd (resubscribePass False False exampleRestart)))
      = (fst (snd (resubscribePass False False exampleRestart)))\<lparr>replayChannel := [5]\<rparr>
   \<and> fst (eventLoopRun ormEmpty [DebounceCase, ReplayCase] False
        ((fst (snd (resubscribePass False False exampleRestart)))\<lparr>replayChannel := [5]\<rparr>))
      = Some (True, None)
   \<and> snd (snd (resubscribePass False False
        (fst (snd (eventLoopRun ormEmpty [DebounceCase, ReplayCase] False
           ((fst (snd (resubscribePass False False exampleRestart)))\<lparr>replayChannel := [5]\<rparr>))))))
      = [LogDebug ''LogBroadcaster: Resubscribing and backfilling logs...'',
         CreateSubscription [12] [77],
         LogDebug ''LogBroadcaster: Using an override as a start of the backfill'',
         BackfillLogs \<lparr>Int64 = 5, Valid = True\<rparr> [12] [77]]
   \<and> BackfillLogs \<lparr>Int64 = 5, Valid = True\<rparr> [12] [77]
        \<in> set (snd (snd (startResubscribeLoop ormEmpty
                  [(False, False, [DebounceCase, ReplayCase]), (False, True, [])]
                  (exampleRestart\<lparr>replayChannel := [5]\<rparr>))))"
proof -
  let ?P = "fst (snd (resubscribePass False False exampleRestart))"
  let ?Q = "?P\<lparr>replayChannel := [5]\<rparr>"
  have s0: "highestSavedHead exampleRestart = Some exampleHead" by (simp add: example_defs)
  have rc: "replayChannel ?P = []"
    by (simp add: resubscribePass_replayChannel) (simp add: example_defs)
  have rg: "registrations ?P = exampleRegistrations"
    by (simp add: resubscribePass_registrations) (simp add: example_defs)
  have at: "addressesAndTopics exampleRegistrations = ([12], [77])"
    by (simp add: addressesAndTopics_def example_defs)
  note t1 = ReplayFromBlock_keeps_pending_request
              [where b = exampleRestart and backfillAbort = False and n = 5 and ns = "[]"
                 and rest = "[]" and orm = ormEmpty and cs = "[]" and pre = "[]"
                 and needsResubscribe = False]
  note t2 = ReplayFromBlock_keeps_pending_request
              [where b = ?P and backfillAbort = False and n = 5 and ns = "[7]"
                 and rest = "[]" and orm = ormEmpty and cs = "[]" and pre = "[]"
                 and needsResubscribe = False]
  note t3 = ReplayFromBlock_keeps_pending_request
              [where b = ?Q and backfillAbort = False and n = 5 and ns = "[]"
                 and rest = "[]" and orm = ormEmpty and cs = "[]" and pre = "[DebounceCase]"
                 and needsResubscribe = False]
  from t1 have h: "highestSavedHead ?P = None" by blast
  from t2 rc have f: "fold (\<lambda>n b. fst (ReplayFromBlock n b)) [5, 7] ?P = ?Q" by blast
  have hq: "highestSavedHead ?Q = None" using h by simp
  have pre: "fst (eventLoopRun ormEmpty [DebounceCase] False ?Q) = None
             \<and> replayChannel (fst (snd (eventLoopRun ormEmpty [DebounceCase] False ?Q))) = 5 # []"
    by simp
  from t3 pre have run: "eventLoopRun ormEmpty ([DebounceCase] @ ReplayCase # []) False ?Q =
          (Some (True, None),
           (fst (snd (eventLoopRun ormEmpty [DebounceCase] False ?Q)))
             \<lparr>replayChannel := [], backfillBlockNumber := \<lparr>Int64 = 5, Valid = True\<rparr>\<rparr>,
           snd (snd (eventLoopRun ormEmpty [DebounceCase] False ?Q))
             @ [LogDebug ''LogBroadcaster: Returning from the event loop to replay logs from specific block number''])"
    by blast
  from t3 hq pre have eff:
    "(let b' = fst (snd (eventLoopRun ormEmpty ([DebounceCase] @ ReplayCase # []) False ?Q));
          addresses = fst (addressesAndTopics (registrations b'));
          topics = snd (addressesAndTopics (registrations b'))
      in snd (snd (resubscribePass False False b')) =
           [LogDebug ''LogBroadcaster: Resubscribing and backfilling logs...'',
            CreateSubscription addresses topics,
            LogDebug ''LogBroadcaster: Using an override as a start of the backfill'',
            BackfillLogs \<lparr>Int64 = 5, Valid = True\<rparr> addresses topics])"
    by blast
  have rg': "registrations (fst (snd (eventLoopRun ormEmpty ([DebounceCase] @ ReplayCase # []) False ?Q)))
               = exampleRegistrations"
    by (simp add: run rg)
  have r1: "fst (eventLoopRun ormEmpty [DebounceCase, ReplayCase] False ?Q) = Some (True, None)"
    using run by simp
  have r2: "snd (snd (resubscribePass False False
        (fst (snd (eventLoopRun ormEmpty [DebounceCase, ReplayCase] False ?Q)))))
      = [LogDebug ''LogBroadcaster: Resubscribing and backfilling logs...'',
         CreateSubscription [12] [77],
         LogDebug ''LogBroadcaster: Using an override as a start of the backfill'',
         BackfillLogs \<lparr>Int64 = 5, Valid = True\<rparr> [12] [77]]"
    using eff unfolding Let_def rg' at by simp
  let ?R = "exampleRestart\<lparr>replayChannel := [5]\<rparr>"
  let ?P5 = "fst (snd (resubscribePass False False ?R))"
  note t4 = ReplayFromBlock_keeps_pending_request
              [where b = ?R and backfillAbort = True and n = 5 and ns = "[]"
                 and rest = "[]" and orm = ormEmpty and cs = "[]" and pre = "[DebounceCase]"
                 and needsResubscribe = False and cs' = "[]" and passes = "[]"]
  have rc5: "replayChannel ?P5 = [5]" by (simp add: resubscribePass_replayChannel)
  have rg5: "registrations ?P5 = exampleRegistrations"
    by (simp add: resubscribePass_registrations) (simp add: example_defs)
  have pre5: "eventLoopRun ormEmpty [DebounceCase] False ?P5 = (None, ?P5, [])" by simp
  have hyp5: "fst (eventLoopRun ormEmpty [DebounceCase] False ?P5) = None
              \<and> replayChannel (fst (snd (eventLoopRun ormEmpty [DebounceCase] False ?P5))) = 5 # []"
    by (simp add: rc5)
  from t4 have "fst (eventLoopRun ormEmpty [DebounceCase] False ?P5) = None
      \<and> replayChannel (fst (snd (eventLoopRun ormEmpty [DebounceCase] False ?P5))) = 5 # [] \<longrightarrow>
      (\<exists>es. snd (snd (startResubscribeLoop ormEmpty
                 ((False, False, [DebounceCase] @ ReplayCase # []) # (False, True, []) # []) ?R)) =
              snd (snd (resubscribePass False False ?R))
              @ snd (snd (eventLoop ormEmpty ([DebounceCase] @ ReplayCase # []) ?P5))
              @ [LogDebug ''LogBroadcaster: Resubscribing and backfilling logs...'',
                 CreateSubscription
                   (fst (addressesAndTopics (registrations
                      (fst (snd (eventLoopRun ormEmpty [DebounceCase] False ?P5))))))
                   (snd (addressesAndTopics (registrations
                      (fst (snd (eventLoopRun ormEmpty [DebounceCase] False ?P5)))))),
                 LogDebug ''LogBroadcaster: Using an override as a start of the backfill'',
                 BackfillLogs \<lparr>Int64 = 5, Valid = True\<rparr>
                   (fst (addressesAndTopics (registrations
                      (fst (snd (eventLoopRun ormEmpty [DebounceCase] False ?P5))))))
                   (snd (addressesAndTopics (registrations
                      (fst (snd (eventLoopRun ormEmpty [DebounceCase] False ?P5))))))]
              @ es)"
    unfolding Let_def by blast
  with hyp5 obtain es where
    "snd (snd (startResubscribeLoop ormEmpty
                 ((False, False, [DebounceCase] @ ReplayCase # []) # (False, True, []) # []) ?R)) =
              snd (snd (resubscribePass False False ?R))
              @ snd (snd (eventLoop ormEmpty ([DebounceCase] @ ReplayCase # []) ?P5))
              @ [LogDebug ''LogBroadcaster: Resubscribing and backfilling logs...'',
                 CreateSubscription
                   (fst (addressesAndTopics (registrations
                      (fst (snd (eventLoopRun ormEmpty [DebounceCase] False ?P5))))))
                   (snd (addressesAndTopics (registrations
                      (fst (snd (eventLoopRun ormEmpty [DebounceCase] False ?P5)))))),
                 LogDebug ''LogBroadcaster: Using an override as a start of the backfill'',
                 BackfillLogs \<lparr>Int64 = 5, Valid = True\<rparr>
                   (fst (addressesAndTopics (registrations
                      (fst (snd (eventLoopRun ormEmpty [DebounceCase] False ?P5))))))
                   (snd (addressesAndTopics (registrations
                      (fst (snd (eventLoopRun ormEmpty [DebounceCase] False ?P5))))))]
              @ es"
    by blast
  then have "BackfillLogs \<lparr>Int64 = 5, Valid = True\<rparr>
                   (fst (addressesAndTopics (registrations
                      (fst (snd (eventLoopRun ormEmpty [DebounceCase] False ?P5))))))
                   (snd (addressesAndTopics (registrations
                      (fst (snd (eventLoopRun ormEmpty [DebounceCase] False ?P5))))))
        \<in> set (snd (snd (startResubscribeLoop ormEmpty
                 ((False, False, [DebounceCase] @ ReplayCase # []) # (False, True, []) # []) ?R)))"
    by (simp only: set_append set_simps) blast
  then have r3: "BackfillLogs \<lparr>Int64 = 5, Valid = True\<rparr> [12] [77]
        \<in> set (snd (snd (startResubscribeLoop ormEmpty
                  [(False, False, [DebounceCase, ReplayCase]), (False, True, [])] ?R)))"
    by (simp only: pre5 fst_conv snd_conv rg5 at append_Cons append_Nil)
  from s0 h f r1 r2 r3 show ?thesis by (simp only: simp_thms)
qed

subsection \<open>Concatenated channels\<close>

lemma forward_no_stop:
  "forward None logs closed = (logs, None, if closed then Drained else Blocked)"
  by (induction logs) simp_all

lemma forward_stop:
  "forward (Some k) logs closed =
     (if k < length logs then (take k logs, Some 0, Stopped)
      else (logs, Some (k - length logs), if closed then Drained else Blocked))"
proof (induction logs arbitrary: k)
  case Nil
  then show ?case by simp
next
  case (Cons x logs)
  then show ?case by (cases k) simp_all
qed

text \<open>
  Claim C7, as stated, fails: the stop signal is read only in the \<open>select\<close> around a
  send, so a signal that fires while the goroutine waits in \<open>range\<close> on an open channel
  that delivers nothing is not read, and the combined channel is not closed. Here the
  signal fires after the one log of the first channel was sent, or before anything was
  sent, and the goroutine waits on a channel that stays open.
\<close>

theorem appendLogChannel_stop_pending_not_closed:
  "appendLogChannel (Some 1) (Chan [exampleLog] True) (Chan [] False) = Some ([exampleLog], False)
   \<and> appendLogChannel (Some 0) (Chan [] False) (Chan [exampleLog2] True) = Some ([], False)"
  by (simp add: appendLogChannel_def)

text \<open>
  Claim C7, amended. With no stop signal taken, \<open>appendLogChannel(a, b)\<close> forwards the
  logs of \<open>a\<close> in order until \<open>a\<close> is closed and then the logs of \<open>b\<close> in order, and
  the combined channel is closed once both are drained; while \<open>a\<close> stays open nothing of
  \<open>b\<close> is forwarded; a nil channel is skipped, and two nil channels give nil. When the
  stop signal has fired after \<open>k\<close> sends and a further log is received, the \<open>select\<close>
  around its send takes the signal: the combined channel has carried the first \<open>k\<close>
  logs, that log and the remaining logs of \<open>a\<close> and \<open>b\<close> are dropped, and the channel is
  closed, whether or not the input channels are. When no further log is received the
  signal is not read: the goroutine ends as without it, and the combined channel is closed
  only if the input it waits on is closed.
\<close>

theorem appendLogChannel_forwards_until_stop_taken:
  "appendLogChannel None (Chan a True) (Chan b closed_b) = Some (a @ b, closed_b)
   \<and> appendLogChannel None (Chan a False) ch_b = Some (a, False)
   \<and> appendLogChannel None (Chan a True) NilChan = Some (a, True)
   \<and> appendLogChannel None NilChan (Chan b closed_b) = Some (b, closed_b)
   \<and> appendLogChannel stop NilChan NilChan = None
   \<and> (k < length (a @ b) \<longrightarrow>
        appendLogChannel (Some k) (Chan a True) (Chan b closed_b) = Some (take k (a @ b), True))
   \<and> (k < length a \<longrightarrow>
        appendLogChannel (Some k) (Chan a closed_a) ch_b = Some (take k a, True))
   \<and> (k < length b \<longrightarrow>
        appendLogChannel (Some k) NilChan (Chan b closed_b) = Some (take k b, True))
   \<and> (length a \<le> k \<longrightarrow>
        appendLogChannel (Some k) (Chan a False) ch_b = Some (a, False))
   \<and> (length (a @ b) \<le> k \<longrightarrow>
        appendLogChannel (Some k) (Chan a True) (Chan b closed_b) = Some (a @ b, closed_b))
   \<and> (length a \<le> k \<longrightarrow>
        appendLogChannel (Some k) (Chan a True) NilChan = Some (a, True))
   \<and> (length b \<le> k \<longrightarrow>
        appendLogChannel (Some k) NilChan (Chan b closed_b) = Some (b, closed_b))"
proof (intro conjI impI)
  show "appendLogChannel None (Chan a True) (Chan b closed_b) = Some (a @ b, closed_b)"
    by (simp add: appendLogChannel_def forward_no_stop)
  show "appendLogChannel None (Chan a False) ch_b = Some (a, False)"
    by (simp add: appendLogChannel_def forward_no_stop)
  show "appendLogChannel None (Chan a True) NilChan = Some (a, True)"
    by (simp add: appendLogChannel_def forward_no_stop)
  show "appendLogChannel None NilChan (Chan b closed_b) = Some (b, closed_b)"
    by (simp add: appendLogChannel_def forward_no_stop)
  show "appendLogChannel stop NilChan NilChan = None"
    by (simp add: appendLogChannel_def)
next
  assume k: "k < length (a @ b)"
  show "appendLogChannel (Some k) (Chan a True) (Chan b closed_b) = Some (take k (a @ b), True)"
  proof (cases "k < length a")
    case True
    then show ?thesis by (simp add: appendLogChannel_def forward_stop)
  next
    case False
    with k have "k - length a < length b" by simp
    with False show ?thesis by (simp add: appendLogChannel_def forward_stop)
  qed
next
  assume "k < length a"
  then show "appendLogChannel (Some k) (Chan a closed_a) ch_b = Some (take k a, True)"
    by (simp add: appendLogChannel_def forward_stop)
next
  assume "k < length b"
  then show "appendLogChannel (Some k) NilChan (Chan b closed_b) = Some (take k b, True)"
    by (simp add: appendLogChannel_def forward_stop)
next
  assume "length a \<le> k"
  then show "appendLogChannel (Some k) (Chan a False) ch_b = Some (a, False)"
    by (simp add: appendLogChannel_def forward_stop)
next
  assume "length (a @ b) \<le> k"
  then have "length a \<le> k" "length b \<le> k - length a" by simp_all
  then show "appendLogChannel (Some k) (Chan a True) (Chan b closed_b) = Some (a @ b, closed_b)"
    by (simp add: appendLogChannel_def forward_stop)
next
  assume "length a \<le> k"
  then show "appendLogChannel (Some k) (Chan a True) NilChan = Some (a, True)"
    by (simp add: appendLogChannel_def forward_stop)
next
  assume "length b \<le> k"
  then show "appendLogChannel (Some k) NilChan (Chan b closed_b) = Some (b, closed_b)"
    by (simp add: appendLogChannel_def forward_stop)
qed

theorem appendLogChannel_forwards_until_stop_taken_witness:
  "appendLogChannel None (Chan [exampleLog] True) (Chan [exampleLog2, exampleLog] True) =
      Some ([exampleLog, exampleLog2, exampleLog], True)
   \<and> appendLogChannel (Some 2) (Chan [exampleLog] True) (Chan [exampleLog2, exampleLog] True) =
      Some ([exampleLog, exampleLog2], True)
   \<and> appendLogChannel (Some 0) (Chan [exampleLog] False) (Chan [exampleLog2, exampleLog] True) =
      Some ([], True)
   \<and> appendLogChannel (Some 1) (Chan [exampleLog] False) (Chan [exampleLog2, exampleLog] True) =
      Some ([exampleLog], False)
   \<and> appendLogChannel (Some 3) (Chan [exampleLog] True) (Chan [exampleLog2, exampleLog] False) =
      Some ([exampleLog, exampleLog2, exampleLog], False)"
proof -
  have k2: "2 < length ([exampleLog] @ [exampleLog2, exampleLog])" by simp
  have k0: "0 < length [exampleLog]" by simp
  have k1: "length [exampleLog] \<le> 1" by simp
  have k3: "length ([exampleLog] @ [exampleLog2, exampleLog]) \<le> 3" by simp
  note t2 = appendLogChannel_forwards_until_stop_taken
             [where a = "[exampleLog]" and b = "[exampleLog2, exampleLog]" and closed_b = True
                and k = 2]
  note t0 = appendLogChannel_forwards_until_stop_taken
             [where a = "[exampleLog]" and closed_a = False
                and ch_b = "Chan [exampleLog2, exampleLog] True" and k = 0]
  note t1 = appendLogChannel_forwards_until_stop_taken
             [where a = "[exampleLog]" and ch_b = "Chan [exampleLog2, exampleLog] True" and k = 1]
  note t3 = appendLogChannel_forwards_until_stop_taken
             [where a = "[exampleLog]" and b = "[exampleLog2, exampleLog]" and closed_b = False
                and k = 3]
  from t2 have a: "appendLogChannel None (Chan [exampleLog] True) (Chan [exampleLog2, exampleLog] True)
                    = Some ([exampleLog] @ [exampleLog2, exampleLog], True)" by blast
  from t2 k2 have b: "appendLogChannel (Some 2) (Chan [exampleLog] True) (Chan [exampleLog2, exampleLog] True)
                    = Some (take 2 ([exampleLog] @ [exampleLog2, exampleLog]), True)" by blast
  from t0 k0 have c: "appendLogChannel (Some 0) (Chan [exampleLog] False) (Chan [exampleLog2, exampleLog] True)
                    = Some (take 0 [exampleLog], True)" by blast
  from t1 k1 have d: "appendLogChannel (Some 1) (Chan [exampleLog] False) (Chan [exampleLog2, exampleLog] True)
                    = Some ([exampleLog], False)" by blast
  from t3 k3 have e: "appendLogChannel (Some 3) (Chan [exampleLog] True) (Chan [exampleLog2, exampleLog] False)
                    = Some ([exampleLog] @ [exampleLog2, exampleLog], False)" by blast
  from a b c d e show ?thesis by simp
qed

end
